theory Spec2Isabelle
  imports Complex_Main "HOL-Library.Sublist"
begin

chapter \<open>AI Engineer: template store, blueprint synthesizer and workflow builder\<close>

text \<open>
  A shallow embedding of the TypeScript sources: the workflow knowledge base
  (\<^verbatim>\<open>WorkflowKnowledgeBase\<close>), the conversational agent
  (\<^verbatim>\<open>AIEngineerAgent\<close>), the blueprint generator
  (\<^verbatim>\<open>BlueprintGenerator\<close>) and the n8n workflow builder
  (\<^verbatim>\<open>N8nWorkflowBuilder\<close>).

  Conventions.
  \<^item> A JavaScript string is a \<^typ>\<open>string\<close>; the characters are read as ASCII.
  \<^item> A mutable field of a class is threaded through explicitly: a method that writes
    a field returns the new value of the field next to its result.
  \<^item> \<^verbatim>\<open>Math.random()\<close> is an extra argument: the number drawn, a rational
    \<open>u\<close> with \<open>0 \<le> u < 1\<close>.
  \<^item> Numbers that the code only adds, multiplies and compares are \<^typ>\<open>int\<close> or
    \<^typ>\<open>nat\<close>; quotients are \<^typ>\<open>rat\<close>.
  \<^item> Fields of an object literal that no function of the sources reads (long texts,
    parameter bags of a node) are left out of the records.
\<close>

section \<open>Strings\<close>

text \<open>\<^verbatim>\<open>String.prototype.toLowerCase\<close>, on ASCII letters.\<close>

definition toLowerChar :: "char \<Rightarrow> char" where
  "toLowerChar c =
     (case map_of (zip ''ABCDEFGHIJKLMNOPQRSTUVWXYZ'' ''abcdefghijklmnopqrstuvwxyz'') c of
        Some l \<Rightarrow> l
      | None \<Rightarrow> c)"

definition toLowerCase :: "string \<Rightarrow> string" where
  "toLowerCase s = map toLowerChar s"

text \<open>\<^verbatim>\<open>s.includes(t)\<close>: \<open>t\<close> starts at some position of \<open>s\<close>.\<close>

fun str_includes :: "string \<Rightarrow> string \<Rightarrow> bool" where
  "str_includes [] t = (t = [])"
| "str_includes (c # s) t = (prefix t (c # s) \<or> str_includes s t)"

text \<open>
  \<^verbatim>\<open>s.split(sep)\<close> for a one-character separator, the separator given as a
  predicate: the pieces between separators, empty pieces included, so that the result
  is never empty.
\<close>

fun splitBy :: "(char \<Rightarrow> bool) \<Rightarrow> string \<Rightarrow> string list" where
  "splitBy sep [] = [[]]"
| "splitBy sep (c # cs) =
     (if sep c then [] # splitBy sep cs
      else (case splitBy sep cs of
              [] \<Rightarrow> [[c]]
            | w # ws \<Rightarrow> (c # w) # ws))"

definition isSpace :: "char \<Rightarrow> bool" where
  "isSpace c = (c = CHR '' '')"

text \<open>\<^verbatim>\<open>s.split(' ')\<close>\<close>

definition split_space :: "string \<Rightarrow> string list" where
  "split_space s = splitBy isSpace s"

text \<open>\<^verbatim>\<open>xs.join(' ')\<close>\<close>

fun join_space :: "string list \<Rightarrow> string" where
  "join_space [] = []"
| "join_space [x] = x"
| "join_space (x # y # ys) = x @ CHR '' '' # join_space (y # ys)"

text \<open>\<^verbatim>\<open>xs.slice(0, n)\<close>: a negative \<open>n\<close> counts from the end.\<close>

definition slice0 :: "int \<Rightarrow> 'a list \<Rightarrow> 'a list" where
  "slice0 n xs = (if n < 0 then take (length xs - nat (- n)) xs else take (nat n) xs)"

text \<open>
  \<^verbatim>\<open>keywords.some(k => text.includes(k))\<close>, the test the classifiers make on
  the joined requirement text.
\<close>

definition includesAny :: "string \<Rightarrow> string list \<Rightarrow> bool" where
  "includesAny content keywords = list_ex (str_includes content) keywords"

section \<open>Exceptions\<close>

text \<open>
  The only exception the modelled methods can raise is the \<^verbatim>\<open>TypeError\<close> of a method
  call on \<^verbatim>\<open>undefined\<close>, as in \<^verbatim>\<open>r.answer.toLowerCase()\<close> for a record
  \<open>r\<close> without \<^verbatim>\<open>answer\<close>. A method that can raise returns \<open>Inl\<close> of the
  error or \<open>Inr\<close> of its result; \<open>bindE\<close> runs the rest of a body after a call that
  returned, and passes an error on. A field on which the sources call a string method
  (\<^verbatim>\<open>answer\<close> of a requirement, \<^verbatim>\<open>name\<close> of a component, \<^verbatim>\<open>title\<close> of a
  blueprint) is optional in the records below, like the fields that the sources guard
  with \<^verbatim>\<open>?.\<close>; the declared types require all of them.
\<close>

datatype error = TypeError

definition bindE :: "error + 'a \<Rightarrow> ('a \<Rightarrow> error + 'b) \<Rightarrow> error + 'b" where
  "bindE m f = (case m of Inl e \<Rightarrow> Inl e | Inr x \<Rightarrow> f x)"

definition mapE :: "('a \<Rightarrow> 'b) \<Rightarrow> error + 'a \<Rightarrow> error + 'b" where
  "mapE f m = (case m of Inl e \<Rightarrow> Inl e | Inr x \<Rightarrow> Inr (f x))"

text \<open>A \<^verbatim>\<open>forEach\<close> whose body can raise: the first error ends the loop.\<close>

fun foldE :: "('s \<Rightarrow> 'a \<Rightarrow> error + 's) \<Rightarrow> 's \<Rightarrow> 'a list \<Rightarrow> error + 's" where
  "foldE f s [] = Inr s"
| "foldE f s (x # xs) = (case f s x of Inl e \<Rightarrow> Inl e | Inr s' \<Rightarrow> foldE f s' xs)"

section \<open>The workflow knowledge base\<close>

datatype WorkflowCategory =
    ECommerce | CrmSales | MarketingAutomation | DataProcessing | CustomerSupport
  | FinanceAccounting | HrRecruiting | SocialMedia | ContentManagement
  | AnalyticsReporting | Communication | ProjectManagement | SecurityMonitoring
  | AiMlAutomation | ApiWebhooks | DataTransformation

record Integration =
  service :: string

record WorkflowTemplate =
  wt_id :: string
  wt_name :: string
  wt_description :: string
  wt_category :: WorkflowCategory
  wt_subcategory :: string
  wt_tags :: "string list"
  wt_difficulty :: string
  wt_integrations :: "Integration list"
  wt_popularity :: int

text \<open>
  The optional second argument of \<^verbatim>\<open>searchWorkflows\<close>; every field is
  optional too.
\<close>

record SearchFilters =
  f_category :: "WorkflowCategory option"
  f_difficulty :: "string option"
  f_tags :: "string list option"
  f_integration :: "string option"

text \<open>
  \<^verbatim>\<open>filters?.field\<close> used as a condition: absent when \<^verbatim>\<open>filters\<close> is
  absent, when the field is absent, or when the field is the empty string.
\<close>

definition truthy :: "string option \<Rightarrow> string option" where
  "truthy v = (case v of None \<Rightarrow> None | Some s \<Rightarrow> if s = [] then None else Some s)"

definition flt_category :: "SearchFilters option \<Rightarrow> WorkflowCategory option" where
  "flt_category fo = (case fo of None \<Rightarrow> None | Some f \<Rightarrow> f_category f)"

definition flt_difficulty :: "SearchFilters option \<Rightarrow> string option" where
  "flt_difficulty fo = (case fo of None \<Rightarrow> None | Some f \<Rightarrow> truthy (f_difficulty f))"

definition flt_tags :: "SearchFilters option \<Rightarrow> string list option" where
  "flt_tags fo =
     (case fo of
        None \<Rightarrow> None
      | Some f \<Rightarrow> (case f_tags f of
                    None \<Rightarrow> None
                  | Some ts \<Rightarrow> if length ts > 0 then Some ts else None))"

definition flt_integration :: "SearchFilters option \<Rightarrow> string option" where
  "flt_integration fo = (case fo of None \<Rightarrow> None | Some f \<Rightarrow> truthy (f_integration f))"

text \<open>The test of one search term against one template (the body of \<^verbatim>\<open>every\<close>).\<close>

definition termMatches :: "WorkflowTemplate \<Rightarrow> string \<Rightarrow> bool" where
  "termMatches w term =
     (str_includes (toLowerCase (wt_name w)) term \<or>
      str_includes (toLowerCase (wt_description w)) term \<or>
      list_ex (\<lambda>tag. str_includes (toLowerCase tag) term) (wt_tags w))"

text \<open>
  \<^verbatim>\<open>xs.sort((a, b) => b.popularity - a.popularity)\<close>: a stable sort, largest
  popularity first. It sorts the array it is called on in place and returns it.
\<close>

definition sortByPopularity :: "WorkflowTemplate list \<Rightarrow> WorkflowTemplate list" where
  "sortByPopularity ws = sort_key (\<lambda>w. - wt_popularity w) ws"

text \<open>
  The methods take the field \<^verbatim>\<open>this.workflows\<close> as their last argument and
  return its new value as the second component.

  In \<^verbatim>\<open>searchWorkflows\<close> the variable \<^verbatim>\<open>results\<close> starts as
  \<^verbatim>\<open>this.workflows\<close> itself; each \<^verbatim>\<open>filter\<close> that runs makes a new
  array. The final \<^verbatim>\<open>sort\<close> therefore sorts the field when no filter ran.
\<close>

definition searchWorkflows ::
  "string \<Rightarrow> SearchFilters option \<Rightarrow> WorkflowTemplate list
     \<Rightarrow> WorkflowTemplate list \<times> WorkflowTemplate list" where
  "searchWorkflows query filters workflows =
     (let r0 = workflows;
          r1 = (if query \<noteq> [] then
                  (let searchTerms = split_space (toLowerCase query)
                   in filter (\<lambda>workflow. list_all (termMatches workflow) searchTerms) r0)
                else r0);
          r2 = (case flt_category filters of
                  Some c \<Rightarrow> filter (\<lambda>w. wt_category w = c) r1
                | None \<Rightarrow> r1);
          r3 = (case flt_difficulty filters of
                  Some d \<Rightarrow> filter (\<lambda>w. wt_difficulty w = d) r2
                | None \<Rightarrow> r2);
          r4 = (case flt_tags filters of
                  Some ts \<Rightarrow> filter (\<lambda>w. list_ex (\<lambda>tag. tag \<in> set (wt_tags w)) ts) r3
                | None \<Rightarrow> r3);
          r5 = (case flt_integration filters of
                  Some i \<Rightarrow>
                    filter (\<lambda>w. list_ex (\<lambda>x. toLowerCase (service x) = toLowerCase i)
                                   (wt_integrations w)) r4
                | None \<Rightarrow> r4);
          fresh = (query \<noteq> [] \<or> flt_category filters \<noteq> None \<or> flt_difficulty filters \<noteq> None
                   \<or> flt_tags filters \<noteq> None \<or> flt_integration filters \<noteq> None)
      in (sortByPopularity r5, if fresh then workflows else sortByPopularity workflows))"

definition getWorkflowById ::
  "string \<Rightarrow> WorkflowTemplate list \<Rightarrow> WorkflowTemplate option \<times> WorkflowTemplate list" where
  "getWorkflowById i workflows = (find (\<lambda>w. wt_id w = i) workflows, workflows)"

text \<open>\<^verbatim>\<open>this.workflows.sort(...).slice(0, limit)\<close>\<close>

definition getPopularWorkflows ::
  "int \<Rightarrow> WorkflowTemplate list \<Rightarrow> WorkflowTemplate list \<times> WorkflowTemplate list" where
  "getPopularWorkflows limit workflows =
     (slice0 limit (sortByPopularity workflows), sortByPopularity workflows)"

text \<open>The \<^verbatim>\<open>reduce\<close> of \<^verbatim>\<open>getRecommendedWorkflows\<close>: one step, then the fold.\<close>

definition scoreStep :: "WorkflowTemplate \<Rightarrow> int \<Rightarrow> string \<Rightarrow> int" where
  "scoreStep workflow score keyword =
     (let s1 = (if str_includes (toLowerCase (wt_name workflow)) keyword then score + 3 else score);
          s2 = (if str_includes (toLowerCase (wt_description workflow)) keyword then s1 + 2 else s1);
          s3 = (if list_ex (\<lambda>tag. str_includes (toLowerCase tag) keyword) (wt_tags workflow)
                then s2 + 1 else s2)
      in s3)"

definition scoreOf :: "string list \<Rightarrow> WorkflowTemplate \<Rightarrow> int" where
  "scoreOf keywords workflow = foldl (scoreStep workflow) 0 keywords"

definition getRecommendedWorkflows ::
  "string list \<Rightarrow> WorkflowTemplate list \<Rightarrow> WorkflowTemplate list \<times> WorkflowTemplate list" where
  "getRecommendedWorkflows requirements workflows =
     (let keywords = map toLowerCase requirements;
          items = map (\<lambda>workflow. (workflow, scoreOf keywords workflow)) workflows;
          kept = filter (\<lambda>item. snd item > 0) items;
          ranked = sort_key (\<lambda>item. - snd item) kept
      in (map fst (slice0 10 ranked), workflows))"

text \<open>A query of the store, and a run of queries from a given state of the field.\<close>

datatype Query =
    Search string "SearchFilters option"
  | ById string
  | Popular int
  | Recommended "string list"

fun runQuery :: "Query \<Rightarrow> WorkflowTemplate list \<Rightarrow> WorkflowTemplate list" where
  "runQuery (Search q f) ws = snd (searchWorkflows q f ws)"
| "runQuery (ById i) ws = snd (getWorkflowById i ws)"
| "runQuery (Popular n) ws = snd (getPopularWorkflows n ws)"
| "runQuery (Recommended rs) ws = snd (getRecommendedWorkflows rs ws)"

definition runQueries :: "Query list \<Rightarrow> WorkflowTemplate list \<Rightarrow> WorkflowTemplate list" where
  "runQueries qs ws = foldl (\<lambda>s q. runQuery q s) ws qs"

text \<open>A template with the given name, description, tags and popularity, for examples.\<close>

definition template ::
  "string \<Rightarrow> string \<Rightarrow> string list \<Rightarrow> int \<Rightarrow> WorkflowTemplate" where
  "template n d ts p =
     \<lparr> wt_id = n, wt_name = n, wt_description = d, wt_category = CrmSales,
       wt_subcategory = [], wt_tags = ts, wt_difficulty = ''beginner'',
       wt_integrations = [], wt_popularity = p \<rparr>"

text \<open>
  The search condition in the words of the specification: the query is cut at
  whitespace, and every piece has to occur in the name, the description or a tag.
\<close>

definition isWhitespace :: "char \<Rightarrow> bool" where
  "isWhitespace c = (c \<in> set [CHR '' '', CHR 0x09, CHR 0x0A, CHR 0x0B, CHR 0x0C, CHR 0x0D])"

definition occursIn :: "string \<Rightarrow> WorkflowTemplate \<Rightarrow> bool" where
  "occursIn t w =
     (sublist t (toLowerCase (wt_name w)) \<or>
      sublist t (toLowerCase (wt_description w)) \<or>
      (\<exists>tag \<in> set (wt_tags w). sublist t (toLowerCase tag)))"

definition whitespaceTokens :: "string \<Rightarrow> string list" where
  "whitespaceTokens s = filter (\<lambda>t. t \<noteq> []) (splitBy isWhitespace s)"

definition spec_search_match :: "string \<Rightarrow> WorkflowTemplate \<Rightarrow> bool" where
  "spec_search_match query w = list_all (\<lambda>t. occursIn t w) (whitespaceTokens (toLowerCase query))"

text \<open>The same with the query cut at the space character only.\<close>

definition spaceTokens :: "string \<Rightarrow> string list" where
  "spaceTokens s = filter (\<lambda>t. t \<noteq> []) (splitBy isSpace s)"

text \<open>What it means for a template to pass the filters that were supplied.\<close>

definition satisfiesFilters :: "SearchFilters option \<Rightarrow> WorkflowTemplate \<Rightarrow> bool" where
  "satisfiesFilters fo w =
     ((case flt_category fo of None \<Rightarrow> True | Some c \<Rightarrow> wt_category w = c) \<and>
      (case flt_difficulty fo of None \<Rightarrow> True | Some d \<Rightarrow> wt_difficulty w = d) \<and>
      (case flt_tags fo of None \<Rightarrow> True | Some ts \<Rightarrow> set ts \<inter> set (wt_tags w) \<noteq> {}) \<and>
      (case flt_integration fo of
         None \<Rightarrow> True
       | Some i \<Rightarrow> \<exists>x \<in> set (wt_integrations w). toLowerCase (service x) = toLowerCase i))"

text \<open>
  The three kinds of hit of a keyword on a template, in the words of the
  specification: the keyword is a substring of the lower-cased name, of the
  lower-cased description, of some lower-cased tag.
\<close>

definition nameHit :: "WorkflowTemplate \<Rightarrow> string \<Rightarrow> bool" where
  "nameHit w k = sublist k (toLowerCase (wt_name w))"

definition descriptionHit :: "WorkflowTemplate \<Rightarrow> string \<Rightarrow> bool" where
  "descriptionHit w k = sublist k (toLowerCase (wt_description w))"

definition tagHit :: "WorkflowTemplate \<Rightarrow> string \<Rightarrow> bool" where
  "tagHit w k = (\<exists>tag \<in> set (wt_tags w). sublist k (toLowerCase tag))"

section \<open>Requirements, blueprints and the agent\<close>

datatype RequirementCategory =
    BusinessProcess | TechnicalSpecs | Integrations | ScaleVolume
  | SecurityCompliance | UserExperience | BudgetTimeline | SuccessMetrics

record ProjectRequirement =
  r_id :: string
  category :: RequirementCategory
  question :: string
  answer :: "string option"
  r_tags :: "string list"

datatype ComponentType = Trigger | Processor | Integrator | Storage | Notifier

record TechnicalComponent =
  c_name :: "string option"
  c_type :: ComponentType
  n8nNodes :: "string list"

text \<open>
  The builder reads the service name as \<^verbatim>\<open>integration.service?.toLowerCase()\<close>, so
  the field may be missing.
\<close>

record IntegrationSpec =
  i_service :: "string option"

record Task =
  t_id :: string
  t_name :: string
  estimatedHours :: nat

record ImplementationPhase =
  p_name :: string
  duration :: string
  tasks :: "Task list"

record ImplementationPlan =
  phases :: "ImplementationPhase list"

record TechnicalArchitecture =
  components :: "TechnicalComponent list"
  integrations :: "IntegrationSpec list"

text \<open>
  A JavaScript number that comes out of a division: a finite value, an infinity or NaN.
  Finite values are exact rationals here.
\<close>

datatype jsnum = Fin rat | PosInfinity | NegInfinity | NaN

text \<open>
  The builder reads the architecture as \<^verbatim>\<open>blueprint.technicalArchitecture?.\<close>, so
  the field may be missing.
\<close>

record ProjectBlueprint =
  b_id :: string
  title :: "string option"
  technicalArchitecture :: "TechnicalArchitecture option"
  implementationPlan :: ImplementationPlan
  estimatedROI :: jsnum

text \<open>\<^verbatim>\<open>AIEngineerAgent.assessRequirementsCompleteness\<close>, on \<^verbatim>\<open>this.context.requirements\<close>.\<close>

definition criticalCategories :: "RequirementCategory list" where
  "criticalCategories = [BusinessProcess, TechnicalSpecs, Integrations, ScaleVolume]"

definition assessRequirementsCompleteness :: "ProjectRequirement list \<Rightarrow> rat" where
  "assessRequirementsCompleteness requirements =
     (let coveredCategories = set (map category requirements)
      in of_nat (length (filter (\<lambda>cat. cat \<in> coveredCategories) criticalCategories))
           / of_nat (length criticalCategories))"

text \<open>
  \<^verbatim>\<open>AIEngineerAgent.createProjectBlueprint\<close>: an object literal. Its identifier comes
  from \<^verbatim>\<open>generateId\<close> (random digits and the clock) and is an argument here.
\<close>

definition createProjectBlueprint :: "string \<Rightarrow> ProjectBlueprint" where
  "createProjectBlueprint newId =
     \<lparr> b_id = newId,
       title = Some ''Custom AI Automation System'',
       technicalArchitecture = Some
         \<lparr> components =
             [\<lparr> c_name = Some ''Data Collector'', c_type = Trigger,
                n8nNodes = [''webhook'', ''cron'', ''http-request''] \<rparr>,
              \<lparr> c_name = Some ''Process Engine'', c_type = Processor,
                n8nNodes = [''function'', ''if'', ''switch'', ''openai''] \<rparr>],
           integrations = [] \<rparr>,
       implementationPlan =
         \<lparr> phases =
             [\<lparr> p_name = ''Setup & Configuration'', duration = ''3-5 days'',
                tasks = [\<lparr> t_id = ''1'', t_name = ''Environment setup'', estimatedHours = 8 \<rparr>] \<rparr>] \<rparr>,
       estimatedROI = Fin 250 \<rparr>"

section \<open>The blueprint generator\<close>

datatype ProjectType = Automation | Integration | Transformation | Analytics | Hybrid
datatype Complexity = Simple | Moderate | Complex | Enterprise
datatype Timeline = Urgent | Normal | Extended
datatype Budget = MinimalBudget | StandardBudget | PremiumBudget | EnterpriseBudget
datatype RiskTolerance = LowRisk | MediumRisk | HighRisk

record BlueprintConfig =
  cfg_projectType :: ProjectType
  cfg_complexity :: Complexity
  cfg_timeline :: Timeline
  cfg_budget :: Budget
  cfg_riskTolerance :: RiskTolerance

record CostEstimation =
  development_hours :: rat
  development_rate :: rat
  development_total :: rat
  infrastructure_monthly :: rat
  infrastructure_annually :: rat
  maintenance_monthly :: rat
  maintenance_annually :: rat
  total_initial :: rat
  total_firstYear :: rat

record ROIProjection =
  timeSavingsHoursPerWeek :: int
  costSavingsPerMonth :: int
  productivityGainPercentage :: int
  errorReductionPercentage :: int
  paybackPeriodMonths :: int
  threeYearROI :: jsnum

text \<open>
  \<^verbatim>\<open>requirements.map(r => r.answer.toLowerCase())\<close>: the first record without an
  answer raises.
\<close>

fun lowerAnswers :: "ProjectRequirement list \<Rightarrow> error + string list" where
  "lowerAnswers [] = Inr []"
| "lowerAnswers (r # rs) =
     (case answer r of
        None \<Rightarrow> Inl TypeError
      | Some a \<Rightarrow> mapE (\<lambda>xs. toLowerCase a # xs) (lowerAnswers rs))"

text \<open>\<^verbatim>\<open>requirements.map(r => r.answer.toLowerCase()).join(' ')\<close>\<close>

definition contentOf :: "ProjectRequirement list \<Rightarrow> error + string" where
  "contentOf requirements = mapE join_space (lowerAnswers requirements)"

text \<open>The common shape \<^verbatim>\<open>content.includes(k1) || content.includes(k2) || ...\<close>.\<close>

definition contentIncludesAny :: "ProjectRequirement list \<Rightarrow> string list \<Rightarrow> error + bool" where
  "contentIncludesAny requirements keywords =
     mapE (\<lambda>content. includesAny content keywords) (contentOf requirements)"

definition countIntegrations :: "ProjectRequirement list \<Rightarrow> error + nat" where
  "countIntegrations requirements =
     mapE (\<lambda>content.
             let integrationKeywords =
                   [''api'', ''integration'', ''connect'', ''sync'', ''webhook'', ''database'']
             in length (filter (\<lambda>keyword. str_includes content keyword) integrationKeywords))
       (contentOf requirements)"

definition requiresDataProcessing :: "ProjectRequirement list \<Rightarrow> error + bool" where
  "requiresDataProcessing requirements =
     contentIncludesAny requirements [''transform'', ''validate'', ''process data'']"

definition requiresAI :: "ProjectRequirement list \<Rightarrow> error + bool" where
  "requiresAI requirements =
     contentIncludesAny requirements [''ai'', ''intelligent'', ''smart'', ''learning'']"

definition requiresStorage :: "ProjectRequirement list \<Rightarrow> error + bool" where
  "requiresStorage requirements =
     contentIncludesAny requirements [''store'', ''database'', ''save'', ''history'']"

definition hasComplexBusinessLogic :: "ProjectRequirement list \<Rightarrow> error + bool" where
  "hasComplexBusinessLogic requirements =
     contentIncludesAny requirements [''complex'', ''multiple conditions'', ''decision tree'']"

definition hasComplianceRequirements :: "ProjectRequirement list \<Rightarrow> error + bool" where
  "hasComplianceRequirements requirements =
     contentIncludesAny requirements [''compliance'', ''regulation'', ''audit'']"

definition complexityScore :: "ProjectRequirement list \<Rightarrow> error + nat" where
  "complexityScore requirements =
     bindE (countIntegrations requirements) (\<lambda>integrationCount.
     bindE (requiresAI requirements) (\<lambda>hasAI.
     bindE (hasComplexBusinessLogic requirements) (\<lambda>hasComplexLogic.
     bindE (hasComplianceRequirements requirements) (\<lambda>hasCompliance.
       let s1 = (if integrationCount > 5 then 2 else if integrationCount > 2 then 1 else 0);
           s2 = (if hasAI then s1 + 1 else s1);
           s3 = (if hasComplexLogic then s2 + 1 else s2);
           s4 = (if hasCompliance then s3 + 2 else s3)
       in Inr s4))))"

definition assessComplexity :: "ProjectRequirement list \<Rightarrow> error + Complexity" where
  "assessComplexity requirements =
     mapE (\<lambda>score. if score \<ge> 5 then Enterprise
                    else if score \<ge> 3 then Complex
                    else if score \<ge> 2 then Moderate
                    else Simple)
       (complexityScore requirements)"

definition identifyDomain :: "ProjectRequirement list \<Rightarrow> error + string" where
  "identifyDomain requirements =
     mapE (\<lambda>content.
             if includesAny content [''ecommerce'', ''e-commerce'', ''shop'', ''orders''] then ''ecommerce''
             else if includesAny content [''crm'', ''sales'', ''leads''] then ''sales''
             else if includesAny content [''data'', ''analytics'', ''reporting''] then ''data''
             else if includesAny content [''support'', ''customer service'', ''tickets''] then ''support''
             else if includesAny content [''marketing'', ''email'', ''campaigns''] then ''marketing''
             else ''general'')
       (contentOf requirements)"

text \<open>
  The part of \<^verbatim>\<open>analyzeRequirements\<close> that later steps read. The other entries of
  the analysis are computed from the same joined text and cannot raise once these have
  returned.
\<close>

record Analysis =
  a_complexity :: Complexity
  a_domain :: string
  a_integrationCount :: nat

definition analyzeRequirements :: "ProjectRequirement list \<Rightarrow> error + Analysis" where
  "analyzeRequirements requirements =
     bindE (assessComplexity requirements) (\<lambda>complexity.
     bindE (identifyDomain requirements) (\<lambda>domain.
     bindE (countIntegrations requirements) (\<lambda>integrationCount.
       Inr \<lparr> a_complexity = complexity, a_domain = domain,
             a_integrationCount = integrationCount \<rparr>)))"

definition getIntegrationNodes :: "ProjectRequirement list \<Rightarrow> error + string list" where
  "getIntegrationNodes requirements =
     mapE (\<lambda>content.
             [''http-request'']
             @ (if str_includes content ''google'' then [''google-sheets'', ''gmail''] else [])
             @ (if str_includes content ''slack'' then [''slack''] else [])
             @ (if str_includes content ''hubspot'' then [''hubspot''] else [])
             @ (if str_includes content ''salesforce'' then [''salesforce''] else [])
             @ (if str_includes content ''stripe'' then [''stripe''] else [])
             @ (if str_includes content ''email'' then [''email-send'', ''imap-email''] else []))
       (contentOf requirements)"

definition generateComponents :: "ProjectRequirement list \<Rightarrow> error + TechnicalComponent list" where
  "generateComponents requirements =
     bindE (requiresDataProcessing requirements) (\<lambda>dataProcessing.
     bindE (requiresAI requirements) (\<lambda>ai.
     bindE (getIntegrationNodes requirements) (\<lambda>integrationNodes.
     bindE (requiresStorage requirements) (\<lambda>storage.
       Inr ([\<lparr> c_name = Some ''Trigger System'', c_type = Trigger,
                n8nNodes = [''webhook'', ''cron'', ''manual-trigger'', ''email-trigger''] \<rparr>]
            @ (if dataProcessing then
                 [\<lparr> c_name = Some ''Data Processing Engine'', c_type = Processor,
                    n8nNodes = [''function'', ''json'', ''xml'', ''set'', ''merge'', ''item-lists''] \<rparr>]
               else [])
            @ (if ai then
                 [\<lparr> c_name = Some ''AI Decision Engine'', c_type = Processor,
                    n8nNodes = [''openai'', ''anthropic'', ''google-ai'', ''hugging-face''] \<rparr>]
               else [])
            @ [\<lparr> c_name = Some ''Integration Layer'', c_type = Integrator,
                 n8nNodes = integrationNodes \<rparr>]
            @ (if storage then
                 [\<lparr> c_name = Some ''Data Storage'', c_type = Storage,
                    n8nNodes = [''postgres'', ''mysql'', ''mongodb'', ''redis'', ''google-sheets''] \<rparr>]
               else [])
            @ [\<lparr> c_name = Some ''Notification System'', c_type = Notifier,
                 n8nNodes = [''email-send'', ''slack'', ''discord'', ''sms'',
                             ''push-notifications''] \<rparr>])))))"

text \<open>The keys and values of \<^verbatim>\<open>serviceMap\<close>, in the order of the literal.\<close>

definition serviceMap :: "(string \<times> string) list" where
  "serviceMap =
     [(''hubspot'', ''HubSpot''), (''salesforce'', ''Salesforce''), (''stripe'', ''Stripe''),
      (''paypal'', ''PayPal''), (''shopify'', ''Shopify''), (''woocommerce'', ''WooCommerce''),
      (''gmail'', ''Gmail''), (''outlook'', ''Outlook''), (''slack'', ''Slack''),
      (''discord'', ''Discord''), (''trello'', ''Trello''), (''asana'', ''Asana''),
      (''jira'', ''Jira'')]"

definition extractMentionedServices :: "ProjectRequirement list \<Rightarrow> error + string list" where
  "extractMentionedServices requirements =
     mapE (\<lambda>content. map snd (filter (\<lambda>kv. str_includes content (fst kv)) serviceMap))
       (contentOf requirements)"

definition getServiceIntegrationSpec :: "string \<Rightarrow> IntegrationSpec option" where
  "getServiceIntegrationSpec s =
     (if s = ''HubSpot'' then Some \<lparr> i_service = Some ''HubSpot CRM'' \<rparr>
      else if s = ''Stripe'' then Some \<lparr> i_service = Some ''Stripe Payments'' \<rparr>
      else None)"

definition generateIntegrationSpecs :: "ProjectRequirement list \<Rightarrow> error + IntegrationSpec list" where
  "generateIntegrationSpecs requirements =
     mapE (\<lambda>mentionedServices.
             let found = List.map_filter getServiceIntegrationSpec mentionedServices
             in if length found = 0 then [\<lparr> i_service = Some ''Database'' \<rparr>] else found)
       (extractMentionedServices requirements)"

definition generateTechnicalArchitecture ::
  "ProjectRequirement list \<Rightarrow> Analysis \<Rightarrow> error + TechnicalArchitecture" where
  "generateTechnicalArchitecture requirements analysis =
     bindE (generateComponents requirements) (\<lambda>cs.
     bindE (generateIntegrationSpecs requirements) (\<lambda>specs.
       Inr \<lparr> components = cs, integrations = specs \<rparr>))"

definition estimateWorkflowHours :: "Complexity \<Rightarrow> nat" where
  "estimateWorkflowHours c =
     (case c of Simple \<Rightarrow> 16 | Moderate \<Rightarrow> 32 | Complex \<Rightarrow> 64 | Enterprise \<Rightarrow> 120)"

definition generateImplementationPhases ::
  "TechnicalArchitecture \<Rightarrow> BlueprintConfig \<Rightarrow> ImplementationPhase list" where
  "generateImplementationPhases architecture config =
     [\<lparr> p_name = ''Setup and Foundation'',
        duration = (if cfg_timeline config = Urgent then ''2-3 days'' else ''3-5 days''),
        tasks =
          [\<lparr> t_id = ''1.1'', t_name = ''Environment Setup'',
             estimatedHours = (if cfg_timeline config = Urgent then 6 else 8) \<rparr>,
           \<lparr> t_id = ''1.2'', t_name = ''Security Configuration'', estimatedHours = 4 \<rparr>,
           \<lparr> t_id = ''1.3'', t_name = ''Integration Credentials'', estimatedHours = 3 \<rparr>] \<rparr>,
      \<lparr> p_name = ''Core Workflow Development'',
        duration = (if cfg_complexity config = Simple then ''1 week''
                    else if cfg_complexity config = Complex then ''2-3 weeks'' else ''1-2 weeks''),
        tasks =
          [\<lparr> t_id = ''2.1'', t_name = ''Primary Workflow Creation'',
             estimatedHours = estimateWorkflowHours (cfg_complexity config) \<rparr>,
           \<lparr> t_id = ''2.2'', t_name = ''Error Handling Implementation'', estimatedHours = 8 \<rparr>,
           \<lparr> t_id = ''2.3'', t_name = ''Data Validation Logic'', estimatedHours = 6 \<rparr>] \<rparr>,
      \<lparr> p_name = ''Integration and Testing'',
        duration = ''1-2 weeks'',
        tasks =
          [\<lparr> t_id = ''3.1'', t_name = ''System Integration Testing'', estimatedHours = 16 \<rparr>,
           \<lparr> t_id = ''3.2'', t_name = ''Performance Optimization'', estimatedHours = 8 \<rparr>,
           \<lparr> t_id = ''3.3'', t_name = ''User Acceptance Testing'', estimatedHours = 12 \<rparr>] \<rparr>,
      \<lparr> p_name = ''Deployment and Training'',
        duration = ''3-5 days'',
        tasks =
          [\<lparr> t_id = ''4.1'', t_name = ''Production Deployment'', estimatedHours = 6 \<rparr>,
           \<lparr> t_id = ''4.2'', t_name = ''User Training'', estimatedHours = 8 \<rparr>,
           \<lparr> t_id = ''4.3'', t_name = ''Documentation'', estimatedHours = 6 \<rparr>] \<rparr>]"

definition generateImplementationPlan ::
  "TechnicalArchitecture \<Rightarrow> BlueprintConfig \<Rightarrow> ImplementationPlan" where
  "generateImplementationPlan architecture config =
     \<lparr> phases = generateImplementationPhases architecture config \<rparr>"

definition calculateCosts :: "ImplementationPlan \<Rightarrow> TechnicalArchitecture \<Rightarrow> CostEstimation" where
  "calculateCosts plan architecture =
     (let developerRate = 100;
          totalHours = foldl (\<lambda>total phase.
                          total + foldl (\<lambda>phaseTotal task. phaseTotal + estimatedHours task)
                                    0 (tasks phase))
                         0 (phases plan)
      in \<lparr> development_hours = of_nat totalHours,
           development_rate = of_nat developerRate,
           development_total = of_nat (totalHours * developerRate),
           infrastructure_monthly = 200,
           infrastructure_annually = 2400,
           maintenance_monthly = 500,
           maintenance_annually = 6000,
           total_initial = of_nat (totalHours * developerRate),
           total_firstYear = of_nat (totalHours * developerRate + 2400 + 6000) \<rparr>)"

text \<open>Division, multiplication by a finite factor and \<^verbatim>\<open>Math.round\<close> on numbers.\<close>

definition js_div :: "rat \<Rightarrow> rat \<Rightarrow> jsnum" where
  "js_div a b =
     (if b \<noteq> 0 then Fin (a / b)
      else if a > 0 then PosInfinity
      else if a < 0 then NegInfinity
      else NaN)"

fun js_times :: "jsnum \<Rightarrow> rat \<Rightarrow> jsnum" where
  "js_times (Fin x) k = Fin (x * k)"
| "js_times PosInfinity k = (if k > 0 then PosInfinity else if k < 0 then NegInfinity else NaN)"
| "js_times NegInfinity k = (if k > 0 then NegInfinity else if k < 0 then PosInfinity else NaN)"
| "js_times NaN k = NaN"

fun js_round :: "jsnum \<Rightarrow> jsnum" where
  "js_round (Fin x) = Fin (of_int \<lfloor>x + 1 / 2\<rfloor>)"
| "js_round v = v"

text \<open>
  \<^verbatim>\<open>calculateROI\<close>. The first argument is the value that \<^verbatim>\<open>Math.random()\<close>
  returns in the first line of the body. For \<open>0 \<le> u < 1\<close> the monthly saving is at
  least 2000, so the division for the payback period is by a positive number.
\<close>

definition calculateROI :: "rat \<Rightarrow> ProjectRequirement list \<Rightarrow> CostEstimation \<Rightarrow> ROIProjection" where
  "calculateROI u requirements costs =
     (let timeSavings = \<lfloor>u * 20\<rfloor> + 10;
          hourlyRate = 50;
          costSavings = timeSavings * 4 * hourlyRate;
          annualSavings = costSavings * 12;
          threeYearSavings = annualSavings * 3;
          threeYearCosts = total_initial costs + infrastructure_annually costs * 3
                             + maintenance_annually costs * 3;
          roi = js_times (js_div (of_int threeYearSavings - threeYearCosts) threeYearCosts) 100
      in \<lparr> timeSavingsHoursPerWeek = timeSavings,
           costSavingsPerMonth = costSavings,
           productivityGainPercentage = 45,
           errorReductionPercentage = 85,
           paybackPeriodMonths = \<lceil>total_initial costs / of_int costSavings\<rceil>,
           threeYearROI = js_round roi \<rparr>)"

text \<open>Upper case of the first character, as in \<^verbatim>\<open>s.charAt(0).toUpperCase() + s.slice(1)\<close>.\<close>

definition toUpperChar :: "char \<Rightarrow> char" where
  "toUpperChar c =
     (case map_of (zip ''abcdefghijklmnopqrstuvwxyz'' ''ABCDEFGHIJKLMNOPQRSTUVWXYZ'') c of
        Some l \<Rightarrow> l
      | None \<Rightarrow> c)"

definition capitalize :: "string \<Rightarrow> string" where
  "capitalize s = (case s of [] \<Rightarrow> [] | c # cs \<Rightarrow> toUpperChar c # cs)"

definition complexityName :: "Complexity \<Rightarrow> string" where
  "complexityName c =
     (case c of Simple \<Rightarrow> ''simple'' | Moderate \<Rightarrow> ''moderate''
              | Complex \<Rightarrow> ''complex'' | Enterprise \<Rightarrow> ''enterprise'')"

definition generateProjectTitle :: "ProjectRequirement list \<Rightarrow> Analysis \<Rightarrow> string" where
  "generateProjectTitle requirements analysis =
     capitalize (a_domain analysis) @ '' Automation System - ''
       @ capitalize (complexityName (a_complexity analysis)) @ '' Implementation''"

text \<open>
  \<^verbatim>\<open>generateComprehensiveBlueprint\<close>. The arguments \<open>newId\<close> and \<open>u\<close> are what
  \<^verbatim>\<open>generateId\<close> returns and what \<^verbatim>\<open>Math.random()\<close> returns inside
  \<^verbatim>\<open>calculateROI\<close>. The cost estimate and the projection are local to the method;
  they are returned next to the blueprint so that they can be spoken about. The steps
  left out (risk assessment, success metrics, business case) fill fields that are not
  modelled; where they read the requirement text they do it as the analysis does, so
  they cannot raise once the analysis has returned.
\<close>

definition generateComprehensiveBlueprint ::
  "string \<Rightarrow> rat \<Rightarrow> ProjectRequirement list \<Rightarrow> BlueprintConfig
     \<Rightarrow> error + (ProjectBlueprint \<times> CostEstimation \<times> ROIProjection)" where
  "generateComprehensiveBlueprint newId u requirements config =
     bindE (analyzeRequirements requirements) (\<lambda>analysis.
     bindE (generateTechnicalArchitecture requirements analysis) (\<lambda>architecture.
       let plan = generateImplementationPlan architecture config;
           costEstimation = calculateCosts plan architecture;
           roiProjection = calculateROI u requirements costEstimation;
           blueprint = \<lparr> b_id = newId,
                         title = Some (generateProjectTitle requirements analysis),
                         technicalArchitecture = Some architecture,
                         implementationPlan = plan,
                         estimatedROI = threeYearROI roiProjection \<rparr>
       in Inr (blueprint, costEstimation, roiProjection)))"

text \<open>The requirement lists in which every record carries an answer.\<close>

definition answersPresent :: "ProjectRequirement list \<Rightarrow> bool" where
  "answersPresent requirements = list_all (\<lambda>r. answer r \<noteq> None) requirements"

text \<open>
  The cost estimate that belongs to a blueprint: \<^verbatim>\<open>calculateCosts\<close> on its plan and
  its architecture (a blueprint without an architecture has no components and no
  integrations, which \<^verbatim>\<open>calculateCosts\<close> does not read anyway).
\<close>

definition costsOf :: "ProjectBlueprint \<Rightarrow> CostEstimation" where
  "costsOf blueprint =
     calculateCosts (implementationPlan blueprint)
       (case technicalArchitecture blueprint of
          Some a \<Rightarrow> a
        | None \<Rightarrow> \<lparr> components = [], integrations = [] \<rparr>)"

text \<open>
  The values of \<^verbatim>\<open>threeYearROI\<close> that \<^verbatim>\<open>calculateROI\<close> can return for given
  costs: one for each of the twenty values of \<^verbatim>\<open>Math.floor(Math.random() * 20)\<close>.
\<close>

definition roiOutcomes :: "ProjectRequirement list \<Rightarrow> CostEstimation \<Rightarrow> jsnum list" where
  "roiOutcomes requirements costs =
     map (\<lambda>k. threeYearROI (calculateROI (of_nat k / 20) requirements costs)) [0 ..< 20]"

section \<open>The n8n workflow builder\<close>

record N8nWorkflowNode =
  n_id :: string
  n_name :: string
  n_type :: string
  typeVersion :: nat
  position :: "int \<times> int"
  assignmentIds :: "string list"

record N8nWorkflowConnection =
  conn_node :: string
  conn_type :: string
  conn_index :: nat

text \<open>
  \<^verbatim>\<open>connections\<close> is an object keyed by the name of the source node; the only key of
  the inner object is \<^verbatim>\<open>main\<close>, whose value is a list of lists of connections.
  The keys are kept in the order in which they were added.
\<close>

type_synonym Connections = "(string \<times> N8nWorkflowConnection list list) list"

record N8nWorkflow =
  w_id :: string
  w_name :: string
  nodes :: "N8nWorkflowNode list"
  connections :: Connections
  active :: bool
  w_tags :: "string list"

datatype SecurityLevel = BasicSecurity | StandardSecurity | HighSecurity
datatype ScalabilityPattern = SimplePattern | DistributedPattern | EnterprisePattern

record WorkflowGenerationOptions =
  includeErrorHandling :: bool
  addMonitoring :: bool
  enableRetries :: bool
  includeLogging :: bool
  securityLevel :: SecurityLevel
  scalabilityPattern :: ScalabilityPattern

text \<open>The mutable fields of \<^verbatim>\<open>N8nWorkflowBuilder\<close>.\<close>

record Builder =
  nodeIdCounter :: nat
  nodePositionX :: int
  nodePositionY :: int

definition nodeSpacingX :: int where
  "nodeSpacingX = 400"

definition resetCounters :: "Builder \<Rightarrow> Builder" where
  "resetCounters b = b\<lparr> nodeIdCounter := 1, nodePositionX := 300, nodePositionY := 300 \<rparr>"

definition advancePosition :: "Builder \<Rightarrow> Builder" where
  "advancePosition b = b\<lparr> nodePositionX := nodePositionX b + nodeSpacingX \<rparr>"

text \<open>The decimal digits of a number, as a template literal prints it.\<close>

definition digitChar :: "nat \<Rightarrow> char" where
  "digitChar d = ''0123456789'' ! d"

fun decimal :: "nat \<Rightarrow> string" where
  "decimal n = (if n < 10 then [digitChar n] else decimal (n div 10) @ [digitChar (n mod 10)])"

declare decimal.simps [simp del]

definition nodeIdOf :: "nat \<Rightarrow> string" where
  "nodeIdOf k = ''node_'' @ decimal k"

text \<open>\<^verbatim>\<open>generateNodeId\<close>: \<^verbatim>\<open>`node_${this.nodeIdCounter++}`\<close>\<close>

definition generateNodeId :: "Builder \<Rightarrow> string \<times> Builder" where
  "generateNodeId b = (nodeIdOf (nodeIdCounter b), b\<lparr> nodeIdCounter := nodeIdCounter b + 1 \<rparr>)"

text \<open>
  The object literal that every \<^verbatim>\<open>create...Node\<close> method returns: a fresh id, the
  given name, type and version, and the current position.
\<close>

definition mkNode :: "string \<Rightarrow> string \<Rightarrow> nat \<Rightarrow> Builder \<Rightarrow> N8nWorkflowNode \<times> Builder" where
  "mkNode name ty version b =
     (let (newId, b') = generateNodeId b
      in (\<lparr> n_id = newId, n_name = name, n_type = ty, typeVersion = version,
            position = (nodePositionX b, nodePositionY b), assignmentIds = [] \<rparr>, b'))"

definition determineTriggerType :: "ProjectRequirement list \<Rightarrow> error + string" where
  "determineTriggerType requirements =
     mapE (\<lambda>content.
             if includesAny content [''webhook'', ''api'', ''real-time''] then ''webhook''
             else if includesAny content [''schedule'', ''daily'', ''hourly''] then ''schedule''
             else if includesAny content [''email'', ''imap''] then ''email''
             else ''manual'')
       (contentOf requirements)"

definition createTriggerNode ::
  "ProjectRequirement list \<Rightarrow> Builder \<Rightarrow> error + (N8nWorkflowNode \<times> Builder)" where
  "createTriggerNode requirements b =
     mapE (\<lambda>triggerType.
             if triggerType = ''webhook'' then mkNode ''Webhook Trigger'' ''n8n-nodes-base.webhook'' 1 b
             else if triggerType = ''schedule'' then mkNode ''Schedule Trigger'' ''n8n-nodes-base.cron'' 1 b
             else if triggerType = ''email'' then
               mkNode ''Email Trigger'' ''n8n-nodes-base.emailReadImap'' 2 b
             else mkNode ''Manual Trigger'' ''n8n-nodes-base.manualTrigger'' 1 b)
       (determineTriggerType requirements)"

definition createValidationNode :: "Builder \<Rightarrow> N8nWorkflowNode \<times> Builder" where
  "createValidationNode b = mkNode ''Input Validation'' ''n8n-nodes-base.function'' 1 b"

definition requiresTextProcessing :: "ProjectRequirement list \<Rightarrow> error + bool" where
  "requiresTextProcessing requirements =
     contentIncludesAny requirements [''text'', ''content'', ''message'']"

definition requiresClassification :: "ProjectRequirement list \<Rightarrow> error + bool" where
  "requiresClassification requirements =
     contentIncludesAny requirements [''classify'', ''categorize'', ''analyze'']"

text \<open>
  \<^verbatim>\<open>createAIProcessingNode\<close> first asks \<^verbatim>\<open>requiresTextProcessing\<close> and
  \<^verbatim>\<open>requiresClassification\<close>; their answers only choose two parameters of the node.
\<close>

definition createAIProcessingNode ::
  "ProjectRequirement list \<Rightarrow> Builder \<Rightarrow> error + (N8nWorkflowNode \<times> Builder)" where
  "createAIProcessingNode requirements b =
     bindE (requiresTextProcessing requirements) (\<lambda>hasTextProcessing.
     bindE (requiresClassification requirements) (\<lambda>hasClassification.
       Inr (mkNode ''AI Processing'' ''n8n-nodes-base.openAi'' 1 b)))"

text \<open>
  \<^verbatim>\<open>createDataProcessingNode\<close> draws four ids: one for the node, then one for each
  of the three assignments in its parameters.
\<close>

definition createDataProcessingNode :: "Builder \<Rightarrow> N8nWorkflowNode \<times> Builder" where
  "createDataProcessingNode b =
     (let (i0, b1) = generateNodeId b;
          (i1, b2) = generateNodeId b1;
          (i2, b3) = generateNodeId b2;
          (i3, b4) = generateNodeId b3
      in (\<lparr> n_id = i0, n_name = ''Transform Data'', n_type = ''n8n-nodes-base.set'',
            typeVersion = 3, position = (nodePositionX b, nodePositionY b),
            assignmentIds = [i1, i2, i3] \<rparr>, b4))"

definition createGenericProcessingNode :: "Builder \<Rightarrow> N8nWorkflowNode \<times> Builder" where
  "createGenericProcessingNode b = mkNode ''Process Data'' ''n8n-nodes-base.function'' 1 b"

text \<open>\<^verbatim>\<open>blueprint.technicalArchitecture?.components || []\<close> and the same for integrations.\<close>

definition componentsOf :: "ProjectBlueprint \<Rightarrow> TechnicalComponent list" where
  "componentsOf blueprint =
     (case technicalArchitecture blueprint of None \<Rightarrow> [] | Some a \<Rightarrow> components a)"

definition integrationsOf :: "ProjectBlueprint \<Rightarrow> IntegrationSpec list" where
  "integrationsOf blueprint =
     (case technicalArchitecture blueprint of None \<Rightarrow> [] | Some a \<Rightarrow> integrations a)"

text \<open>
  The body of the \<^verbatim>\<open>forEach\<close> in \<^verbatim>\<open>createProcessingNodes\<close>, and the method.
  The name of a component is read only when its type is \<^verbatim>\<open>processor\<close>.
\<close>

definition processingNodeFor ::
  "ProjectRequirement list \<Rightarrow> N8nWorkflowNode list \<times> Builder \<Rightarrow> TechnicalComponent
     \<Rightarrow> error + (N8nWorkflowNode list \<times> Builder)" where
  "processingNodeFor requirements acc component =
     (case acc of (ns, b) \<Rightarrow>
        if c_type component = Processor then
          (case c_name component of
             None \<Rightarrow> Inl TypeError
           | Some name \<Rightarrow>
               mapE (\<lambda>(n, b'). (ns @ [n], b'))
                 (if str_includes name ''AI'' then createAIProcessingNode requirements b
                  else if str_includes name ''Data'' then Inr (createDataProcessingNode b)
                  else Inr (createGenericProcessingNode b)))
        else Inr (ns, b))"

definition createProcessingNodes ::
  "ProjectBlueprint \<Rightarrow> ProjectRequirement list \<Rightarrow> Builder
     \<Rightarrow> error + (N8nWorkflowNode list \<times> Builder)" where
  "createProcessingNodes blueprint requirements b =
     mapE (\<lambda>(ns, b1).
             if length ns = 0 then
               (let (n, b2) = createGenericProcessingNode b1 in (ns @ [n], b2))
             else (ns, b1))
       (foldE (processingNodeFor requirements) ([], b) (componentsOf blueprint))"

definition createHttpRequestNode :: "Builder \<Rightarrow> N8nWorkflowNode \<times> Builder" where
  "createHttpRequestNode b = mkNode ''API Integration'' ''n8n-nodes-base.httpRequest'' 4 b"

definition createIntegrationNodeForService :: "IntegrationSpec \<Rightarrow> Builder \<Rightarrow> N8nWorkflowNode \<times> Builder" where
  "createIntegrationNodeForService integration b =
     (let service = (case i_service integration of None \<Rightarrow> [] | Some s \<Rightarrow> toLowerCase s)
      in if str_includes service ''hubspot'' then
           mkNode ''HubSpot Integration'' ''n8n-nodes-base.hubspot'' 2 b
         else if str_includes service ''salesforce'' then
           mkNode ''Salesforce Integration'' ''n8n-nodes-base.salesforce'' 2 b
         else if str_includes service ''stripe'' then
           mkNode ''Stripe Integration'' ''n8n-nodes-base.stripe'' 1 b
         else if str_includes service ''database'' then
           mkNode ''Database Insert'' ''n8n-nodes-base.postgres'' 2 b
         else createHttpRequestNode b)"

definition integrationNodeFor ::
  "N8nWorkflowNode list \<times> Builder \<Rightarrow> IntegrationSpec \<Rightarrow> N8nWorkflowNode list \<times> Builder" where
  "integrationNodeFor acc integration =
     (case acc of (ns, b) \<Rightarrow>
        (let (n, b') = createIntegrationNodeForService integration b in (ns @ [n], b')))"

definition createIntegrationNodes :: "ProjectBlueprint \<Rightarrow> Builder \<Rightarrow> N8nWorkflowNode list \<times> Builder" where
  "createIntegrationNodes blueprint b =
     (let (ns, b1) = foldl integrationNodeFor ([], b) (integrationsOf blueprint)
      in if length ns = 0 then
           (let (n, b2) = createHttpRequestNode b1 in (ns @ [n], b2))
         else (ns, b1))"

definition createOutputNode :: "ProjectBlueprint \<Rightarrow> Builder \<Rightarrow> N8nWorkflowNode \<times> Builder" where
  "createOutputNode blueprint b = mkNode ''Send Notification'' ''n8n-nodes-base.emailSend'' 2 b"

definition createErrorHandlingNodes :: "Builder \<Rightarrow> N8nWorkflowNode list \<times> Builder" where
  "createErrorHandlingNodes b =
     (let (i1, b1) = generateNodeId b;
          (i2, b2) = generateNodeId b1
      in ([\<lparr> n_id = i1, n_name = ''Error Handler'', n_type = ''n8n-nodes-base.function'',
              typeVersion = 1, position = (nodePositionX b, nodePositionY b + 300),
              assignmentIds = [] \<rparr>,
           \<lparr> n_id = i2, n_name = ''Error Notification'', n_type = ''n8n-nodes-base.emailSend'',
              typeVersion = 2, position = (nodePositionX b, nodePositionY b + 500),
              assignmentIds = [] \<rparr>], b2))"

text \<open>
  \<^verbatim>\<open>connectNodes\<close>: the entry of \<^verbatim>\<open>fromNode\<close> is created when missing, and one
  more one-element list is pushed onto its \<^verbatim>\<open>main\<close> list.
\<close>

definition mainConnection :: "string \<Rightarrow> N8nWorkflowConnection" where
  "mainConnection toNode = \<lparr> conn_node = toNode, conn_type = ''main'', conn_index = 0 \<rparr>"

fun connectNodes :: "Connections \<Rightarrow> string \<Rightarrow> string \<Rightarrow> Connections" where
  "connectNodes [] fromNode toNode = [(fromNode, [[mainConnection toNode]])]"
| "connectNodes ((k, outs) # cs) fromNode toNode =
     (if k = fromNode then (k, outs @ [[mainConnection toNode]]) # cs
      else (k, outs) # connectNodes cs fromNode toNode)"

definition addErrorHandlingConnections ::
  "Connections \<Rightarrow> N8nWorkflowNode list \<Rightarrow> N8nWorkflowNode list \<Rightarrow> Connections" where
  "addErrorHandlingConnections conns allNodes errorNodes =
     (case (find (\<lambda>n. n_name n = ''Error Handler'') errorNodes,
            find (\<lambda>n. n_name n = ''Error Notification'') errorNodes) of
        (Some errorHandler, Some errorNotification) \<Rightarrow>
          connectNodes conns (n_name errorHandler) (n_name errorNotification)
      | _ \<Rightarrow> conns)"

text \<open>\<^verbatim>\<open>blueprint.title.toLowerCase()\<close> raises when the title is missing.\<close>

definition generateWorkflowTags :: "ProjectBlueprint \<Rightarrow> error + string list" where
  "generateWorkflowTags blueprint =
     (case title blueprint of
        None \<Rightarrow> Inl TypeError
      | Some t \<Rightarrow>
          Inr ([''automation'', ''ai-engineer'']
               @ (if str_includes (toLowerCase t) ''ecommerce'' then [''ecommerce''] else [])
               @ (if str_includes (toLowerCase t) ''crm'' then [''crm'', ''sales''] else [])
               @ (if str_includes (toLowerCase t) ''data'' then [''data-processing''] else [])))"

text \<open>The title inside a template literal: a missing title prints as \<open>undefined\<close>.\<close>

definition titleText :: "ProjectBlueprint \<Rightarrow> string" where
  "titleText blueprint = (case title blueprint of None \<Rightarrow> ''undefined'' | Some t \<Rightarrow> t)"

text \<open>
  The local variables of \<^verbatim>\<open>buildMainWorkflow\<close> together with the fields of the
  builder, and the six numbered steps of the method.
\<close>

record BuildState =
  bs_nodes :: "N8nWorkflowNode list"
  bs_connections :: Connections
  previousNodeName :: string
  bs_builder :: Builder

definition addTriggerNode :: "ProjectRequirement list \<Rightarrow> Builder \<Rightarrow> error + BuildState" where
  "addTriggerNode requirements b =
     mapE (\<lambda>(triggerNode, b1).
             \<lparr> bs_nodes = [triggerNode], bs_connections = [],
               previousNodeName = n_name triggerNode, bs_builder = advancePosition b1 \<rparr>)
       (createTriggerNode requirements b)"

definition addValidationNode :: "WorkflowGenerationOptions \<Rightarrow> BuildState \<Rightarrow> BuildState" where
  "addValidationNode options st =
     (if securityLevel options \<noteq> BasicSecurity then
        (let (validationNode, b1) = createValidationNode (bs_builder st)
         in \<lparr> bs_nodes = bs_nodes st @ [validationNode],
              bs_connections = connectNodes (bs_connections st) (previousNodeName st)
                                 (n_name validationNode),
              previousNodeName = n_name validationNode,
              bs_builder = advancePosition b1 \<rparr>)
      else st)"

definition processingLoop :: "BuildState \<Rightarrow> N8nWorkflowNode \<Rightarrow> BuildState" where
  "processingLoop st node =
     \<lparr> bs_nodes = bs_nodes st @ [node],
       bs_connections = connectNodes (bs_connections st) (previousNodeName st) (n_name node),
       previousNodeName = n_name node,
       bs_builder = advancePosition (bs_builder st) \<rparr>"

definition addProcessingNodes ::
  "ProjectBlueprint \<Rightarrow> ProjectRequirement list \<Rightarrow> BuildState \<Rightarrow> error + BuildState" where
  "addProcessingNodes blueprint requirements st =
     mapE (\<lambda>(processingNodes, b1). foldl processingLoop (st\<lparr> bs_builder := b1 \<rparr>) processingNodes)
       (createProcessingNodes blueprint requirements (bs_builder st))"

text \<open>The loop over the integration nodes does not assign \<^verbatim>\<open>previousNodeName\<close>.\<close>

definition integrationLoop :: "BuildState \<Rightarrow> N8nWorkflowNode \<Rightarrow> BuildState" where
  "integrationLoop st node =
     \<lparr> bs_nodes = bs_nodes st @ [node],
       bs_connections = connectNodes (bs_connections st) (previousNodeName st) (n_name node),
       previousNodeName = previousNodeName st,
       bs_builder = advancePosition (bs_builder st) \<rparr>"

definition addIntegrationNodes :: "ProjectBlueprint \<Rightarrow> BuildState \<Rightarrow> BuildState" where
  "addIntegrationNodes blueprint st =
     (let (integrationNodes, b1) = createIntegrationNodes blueprint (bs_builder st)
      in foldl integrationLoop (st\<lparr> bs_builder := b1 \<rparr>) integrationNodes)"

definition addOutputNode :: "ProjectBlueprint \<Rightarrow> BuildState \<Rightarrow> BuildState" where
  "addOutputNode blueprint st =
     (let (outputNode, b1) = createOutputNode blueprint (bs_builder st)
      in \<lparr> bs_nodes = bs_nodes st @ [outputNode],
           bs_connections = connectNodes (bs_connections st) (previousNodeName st)
                              (n_name outputNode),
           previousNodeName = previousNodeName st,
           bs_builder = advancePosition b1 \<rparr>)"

definition addErrorHandling :: "WorkflowGenerationOptions \<Rightarrow> BuildState \<Rightarrow> BuildState" where
  "addErrorHandling options st =
     (if includeErrorHandling options then
        (let (errorNodes, b1) = createErrorHandlingNodes (bs_builder st);
             allNodes = bs_nodes st @ errorNodes
         in \<lparr> bs_nodes = allNodes,
              bs_connections = addErrorHandlingConnections (bs_connections st) allNodes errorNodes,
              previousNodeName = previousNodeName st,
              bs_builder = b1 \<rparr>)
      else st)"

text \<open>The state after step 5: the main chain.\<close>

definition mainChain ::
  "ProjectBlueprint \<Rightarrow> ProjectRequirement list \<Rightarrow> WorkflowGenerationOptions \<Rightarrow> Builder
     \<Rightarrow> error + BuildState" where
  "mainChain blueprint requirements options b =
     bindE (addTriggerNode requirements (resetCounters b)) (\<lambda>st1.
     bindE (addProcessingNodes blueprint requirements (addValidationNode options st1)) (\<lambda>st3.
       Inr (addOutputNode blueprint (addIntegrationNodes blueprint st3))))"

text \<open>
  \<^verbatim>\<open>buildMainWorkflow\<close>. The argument \<open>newId\<close> is what \<^verbatim>\<open>generateWorkflowId\<close>
  returns (random digits and the clock). The tags are computed last, in the object
  literal that is returned. When a method raises, the builder keeps the counter and the
  position it had reached; the next build resets them.
\<close>

definition buildMainWorkflow ::
  "ProjectBlueprint \<Rightarrow> ProjectRequirement list \<Rightarrow> WorkflowGenerationOptions \<Rightarrow> string
     \<Rightarrow> Builder \<Rightarrow> error + (N8nWorkflow \<times> Builder)" where
  "buildMainWorkflow blueprint requirements options newId b =
     bindE (mainChain blueprint requirements options b) (\<lambda>st5.
     let st = addErrorHandling options st5
     in bindE (generateWorkflowTags blueprint) (\<lambda>tags.
          Inr (\<lparr> w_id = newId,
                 w_name = titleText blueprint @ '' - Main Workflow'',
                 nodes = bs_nodes st,
                 connections = bs_connections st,
                 active = False,
                 w_tags = tags \<rparr>, bs_builder st)))"

definition buildDataProcessingWorkflow ::
  "ProjectBlueprint \<Rightarrow> ProjectRequirement list \<Rightarrow> WorkflowGenerationOptions \<Rightarrow> string
     \<Rightarrow> Builder \<Rightarrow> error + (N8nWorkflow \<times> Builder)" where
  "buildDataProcessingWorkflow blueprint requirements options newId b =
     (let b0 = resetCounters b;
          (triggerNode, b1) = mkNode ''Data Processing Schedule'' ''n8n-nodes-base.cron'' 1 b0;
          (fetchNode, b2) = mkNode ''Fetch Data'' ''n8n-nodes-base.postgres'' 2 (advancePosition b1);
          c1 = connectNodes [] (n_name triggerNode) (n_name fetchNode);
          (processNode, b3) = mkNode ''Process Data Batch'' ''n8n-nodes-base.function'' 1
                                (advancePosition b2);
          c2 = connectNodes c1 (n_name fetchNode) (n_name processNode);
          (updateNode, b4) = mkNode ''Update Status'' ''n8n-nodes-base.postgres'' 2
                               (advancePosition b3);
          c3 = connectNodes c2 (n_name processNode) (n_name updateNode)
      in bindE (generateWorkflowTags blueprint) (\<lambda>tags.
           Inr (\<lparr> w_id = newId,
                  w_name = titleText blueprint @ '' - Data Processing'',
                  nodes = [triggerNode, fetchNode, processNode, updateNode],
                  connections = c3,
                  active = True,
                  w_tags = tags @ [''data-processing''] \<rparr>, b4)))"

definition buildMonitoringWorkflow ::
  "ProjectBlueprint \<Rightarrow> WorkflowGenerationOptions \<Rightarrow> string \<Rightarrow> Builder
     \<Rightarrow> error + (N8nWorkflow \<times> Builder)" where
  "buildMonitoringWorkflow blueprint options newId b =
     (let b0 = resetCounters b;
          (triggerNode, b1) = mkNode ''Monitoring Schedule'' ''n8n-nodes-base.cron'' 1 b0;
          (healthCheckNode, b2) = mkNode ''System Health Check'' ''n8n-nodes-base.function'' 1
                                    (advancePosition b1);
          c1 = connectNodes [] (n_name triggerNode) (n_name healthCheckNode)
      in bindE (generateWorkflowTags blueprint) (\<lambda>tags.
           Inr (\<lparr> w_id = newId,
                  w_name = titleText blueprint @ '' - Monitoring'',
                  nodes = [triggerNode, healthCheckNode],
                  connections = c1,
                  active = True,
                  w_tags = tags @ [''monitoring''] \<rparr>, b2)))"

text \<open>
  \<^verbatim>\<open>components?.some(c => c.type === 'storage' || c.name.includes('Data'))\<close>: the
  name of a component is read when its type is not \<^verbatim>\<open>storage\<close>, and the search
  stops at the first component that passes.
\<close>

fun someStorageOrData :: "TechnicalComponent list \<Rightarrow> error + bool" where
  "someStorageOrData [] = Inr False"
| "someStorageOrData (c # cs) =
     (if c_type c = Storage then Inr True
      else (case c_name c of
              None \<Rightarrow> Inl TypeError
            | Some name \<Rightarrow> if str_includes name ''Data'' then Inr True else someStorageOrData cs))"

definition requiresDataProcessingWorkflow :: "ProjectBlueprint \<Rightarrow> error + bool" where
  "requiresDataProcessingWorkflow blueprint =
     (case technicalArchitecture blueprint of
        None \<Rightarrow> Inr False
      | Some a \<Rightarrow> someStorageOrData (components a))"

definition requiresMonitoringWorkflow :: "ProjectBlueprint \<Rightarrow> WorkflowGenerationOptions \<Rightarrow> bool" where
  "requiresMonitoringWorkflow blueprint options =
     (addMonitoring options \<or>
      (case technicalArchitecture blueprint of
         None \<Rightarrow> False
       | Some a \<Rightarrow> length (components a) > 3))"

text \<open>
  \<^verbatim>\<open>generateWorkflowFromBlueprint\<close>. The triple \<open>newIds\<close> holds the identifiers
  that \<^verbatim>\<open>generateWorkflowId\<close> returns for the main, the data-processing and the
  monitoring workflow.
\<close>

definition generateWorkflowFromBlueprint ::
  "ProjectBlueprint \<Rightarrow> ProjectRequirement list \<Rightarrow> WorkflowGenerationOptions
     \<Rightarrow> string \<times> string \<times> string \<Rightarrow> Builder \<Rightarrow> error + (N8nWorkflow list \<times> Builder)" where
  "generateWorkflowFromBlueprint blueprint requirements options newIds b =
     (case newIds of (mainId, dataId, monitoringId) \<Rightarrow>
        bindE (buildMainWorkflow blueprint requirements options mainId b) (\<lambda>(mainWorkflow, b1).
        bindE (requiresDataProcessingWorkflow blueprint) (\<lambda>needsData.
        bindE (if needsData then
                 mapE (\<lambda>(dataWorkflow, b'). ([mainWorkflow] @ [dataWorkflow], b'))
                   (buildDataProcessingWorkflow blueprint requirements options dataId b1)
               else Inr ([mainWorkflow], b1)) (\<lambda>(ws2, b2).
        if requiresMonitoringWorkflow blueprint options then
          mapE (\<lambda>(monitoringWorkflow, b'). (ws2 @ [monitoringWorkflow], b'))
            (buildMonitoringWorkflow blueprint options monitoringId b2)
        else Inr (ws2, b2)))))"

definition getDefaultOptions :: WorkflowGenerationOptions where
  "getDefaultOptions =
     \<lparr> includeErrorHandling = True, addMonitoring = True, enableRetries = True,
       includeLogging = True, securityLevel = StandardSecurity,
       scalabilityPattern = SimplePattern \<rparr>"

text \<open>The builder as its constructor leaves it.\<close>

definition newBuilder :: Builder where
  "newBuilder = \<lparr> nodeIdCounter = 1, nodePositionX = 300, nodePositionY = 300 \<rparr>"

text \<open>The names of the two error-handling nodes, and all node names a set of connections mentions.\<close>

definition errorNodeNames :: "string set" where
  "errorNodeNames = {''Error Handler'', ''Error Notification''}"

definition connectionSources :: "Connections \<Rightarrow> string set" where
  "connectionSources conns = fst ` set conns"

definition connectionTargets :: "Connections \<Rightarrow> string set" where
  "connectionTargets conns = (\<Union>kv \<in> set conns. \<Union>out \<in> set (snd kv). conn_node ` set out)"

text \<open>
  There is an edge from \<open>a\<close> to \<open>b\<close> when the entry of \<open>a\<close> lists a connection
  to \<open>b\<close>; a node is reachable from another along a path of edges.
\<close>

definition edge :: "Connections \<Rightarrow> string \<Rightarrow> string \<Rightarrow> bool" where
  "edge conns a b =
     (\<exists>outs out c. (a, outs) \<in> set conns \<and> out \<in> set outs \<and> c \<in> set out \<and> conn_node c = b)"

inductive reachable :: "Connections \<Rightarrow> string \<Rightarrow> string \<Rightarrow> bool" for conns :: Connections where
  reach_refl: "reachable conns a a"
| reach_step: "reachable conns a b \<Longrightarrow> edge conns b c \<Longrightarrow> reachable conns a c"

text \<open>The names that the nodes of the main chain can have.\<close>

definition mainNodeNames :: "string set" where
  "mainNodeNames =
     {''Webhook Trigger'', ''Schedule Trigger'', ''Email Trigger'', ''Manual Trigger'',
      ''Input Validation'', ''AI Processing'', ''Transform Data'', ''Process Data'',
      ''HubSpot Integration'', ''Salesforce Integration'', ''Stripe Integration'',
      ''Database Insert'', ''API Integration'', ''Send Notification''}"

text \<open>
  The nodes \<open>ns\<close> carry the ids of strictly increasing values of the counter, all of
  them at least \<open>c\<close> and below \<open>c'\<close>.
\<close>

definition idsFrom :: "nat \<Rightarrow> N8nWorkflowNode list \<Rightarrow> nat \<Rightarrow> bool" where
  "idsFrom c ns c' =
     (c \<le> c' \<and>
      (\<exists>ks. map n_id ns = map nodeIdOf ks \<and> sorted_wrt (<) ks \<and> (\<forall>k \<in> set ks. c \<le> k \<and> k < c')))"

text \<open>What holds of the state of \<^verbatim>\<open>buildMainWorkflow\<close> after each step of the main chain.\<close>

definition namesInv :: "BuildState \<Rightarrow> bool" where
  "namesInv st =
     (n_name ` set (bs_nodes st) \<subseteq> mainNodeNames
      \<and> previousNodeName st \<in> mainNodeNames
      \<and> connectionSources (bs_connections st) \<subseteq> mainNodeNames
      \<and> connectionTargets (bs_connections st) \<subseteq> mainNodeNames)"

definition chainInv :: "BuildState \<Rightarrow> bool" where
  "chainInv st =
     (idsFrom 1 (bs_nodes st) (nodeIdCounter (bs_builder st)) \<and> namesInv st
      \<and> bs_nodes st \<noteq> [] \<and> n_id (hd (bs_nodes st)) = nodeIdOf 1)"

text \<open>The blueprints in which every component carries a name.\<close>

definition namesPresent :: "ProjectBlueprint \<Rightarrow> bool" where
  "namesPresent blueprint = list_all (\<lambda>c. c_name c \<noteq> None) (componentsOf blueprint)"


definition requirementWith :: "string \<Rightarrow> ProjectRequirement" where
  "requirementWith a =
     \<lparr> r_id = ''1'', category = BusinessProcess, question = ''q'', answer = Some a, r_tags = [] \<rparr>"

text \<open>A blueprint with the given components and integrations, for examples.\<close>

definition blueprintOf :: "TechnicalComponent list \<Rightarrow> IntegrationSpec list \<Rightarrow> ProjectBlueprint" where
  "blueprintOf cs is =
     \<lparr> b_id = ''b'', title = Some ''Sync'',
       technicalArchitecture = Some \<lparr> components = cs, integrations = is \<rparr>,
       implementationPlan = \<lparr> phases = [] \<rparr>,
       estimatedROI = Fin 0 \<rparr>"


definition basicOptions :: WorkflowGenerationOptions where
  "basicOptions =
     \<lparr> includeErrorHandling = False, addMonitoring = False, enableRetries = False,
       includeLogging = False, securityLevel = BasicSecurity,
       scalabilityPattern = SimplePattern \<rparr>"

section \<open>Facts about exceptions\<close>

lemma bindE_simps [simp]: "bindE (Inl e) f = Inl e" "bindE (Inr x) f = f x"
  by (simp_all add: bindE_def)

lemma mapE_simps [simp]: "mapE f (Inl e) = Inl e" "mapE f (Inr x) = Inr (f x)"
  by (simp_all add: mapE_def)

lemma bindE_Inr_iff: "bindE m f = Inr y \<longleftrightarrow> (\<exists>x. m = Inr x \<and> f x = Inr y)"
  by (cases m) simp_all

lemma mapE_Inr_iff: "mapE f m = Inr y \<longleftrightarrow> (\<exists>x. m = Inr x \<and> y = f x)"
  by (cases m) auto

lemma bindE_total_iff: "(\<exists>y. bindE m f = Inr y) \<longleftrightarrow> (\<exists>x. m = Inr x \<and> (\<exists>y. f x = Inr y))"
  by (cases m) simp_all

lemma mapE_total_iff: "(\<exists>y. mapE f m = Inr y) \<longleftrightarrow> (\<exists>x. m = Inr x)"
  by (cases m) simp_all

lemma error_unique: "(e :: error) = TypeError"
  by (cases e) simp

lemma not_Inr_TypeError: "(\<forall>x. m \<noteq> Inr x) \<longleftrightarrow> m = Inl TypeError"
  by (cases m) (simp_all add: error_unique)

lemma foldE_total:
  assumes "\<And>s x. x \<in> set xs \<Longrightarrow> \<exists>s'. f s x = Inr s'"
  shows "\<exists>s'. foldE f s xs = Inr s'"
  using assms
proof (induction xs arbitrary: s)
  case Nil
  then show ?case by simp
next
  case (Cons x xs)
  from Cons.prems [of x s] obtain s1 where s1: "f s x = Inr s1"
    by auto
  from Cons.IH [of s1] Cons.prems obtain s' where "foldE f s1 xs = Inr s'"
    by auto
  with s1 show ?case by simp
qed

section \<open>Facts about strings\<close>

lemma str_includes_sublist: "str_includes s t \<longleftrightarrow> sublist t s"
  by (induction s) (simp_all add: sublist_Cons_right)

lemma str_includes_empty [simp]: "str_includes s []"
  by (simp add: str_includes_sublist)

lemma splitBy_not_Nil [simp]: "splitBy sep s \<noteq> []"
  by (induction s) (auto split: list.splits)

text \<open>No piece of a split contains a separator, and the pieces make up the string.\<close>

lemma splitBy_no_sep: "t \<in> set (splitBy sep s) \<Longrightarrow> c \<in> set t \<Longrightarrow> \<not> sep c"
proof (induction s arbitrary: t)
  case Nil
  then show ?case by simp
next
  case (Cons a s)
  show ?case
  proof (cases "sep a")
    case True
    with Cons show ?thesis by auto
  next
    case False
    obtain w ws where sp: "splitBy sep s = w # ws"
      by (cases "splitBy sep s") simp_all
    with False Cons.prems have "t = a # w \<or> t \<in> set ws" by simp
    then show ?thesis
    proof
      assume "t = a # w"
      with Cons.prems(2) have "c = a \<or> c \<in> set w" by simp
      then show ?thesis using False Cons.IH [of w] sp by auto
    next
      assume "t \<in> set ws"
      then show ?thesis using Cons.IH [of t] sp Cons.prems(2) by simp
    qed
  qed
qed

lemma termMatches_occursIn: "termMatches w t \<longleftrightarrow> occursIn t w"
  by (simp add: termMatches_def occursIn_def str_includes_sublist list_ex_iff)

lemma termMatches_empty [simp]: "termMatches w []"
  by (simp add: termMatches_def)

lemma all_terms_iff_all_tokens:
  "list_all (termMatches w) (split_space s) \<longleftrightarrow> (\<forall>t \<in> set (spaceTokens s). occursIn t w)"
proof -
  have "list_all (termMatches w) (split_space s)
          \<longleftrightarrow> (\<forall>t \<in> set (splitBy isSpace s). t \<noteq> [] \<longrightarrow> termMatches w t)"
    unfolding split_space_def list_all_iff by (metis termMatches_empty)
  then show ?thesis
    by (auto simp: spaceTokens_def termMatches_occursIn)
qed

section \<open>The template store\<close>

lemma set_sortByPopularity [simp]: "set (sortByPopularity ws) = set ws"
  by (simp add: sortByPopularity_def)

lemma search_filters_member:
  "w \<in> set (fst (searchWorkflows [] fo ws)) \<longleftrightarrow> w \<in> set ws \<and> satisfiesFilters fo w"
  by (auto simp: searchWorkflows_def satisfiesFilters_def Let_def list_ex_iff
           split: option.splits)

text \<open>
  C4, the failing run. The store holds two templates, the less popular one loaded first.
  One call of \<^verbatim>\<open>getPopularWorkflows\<close> leaves the field \<^verbatim>\<open>workflows\<close> in
  the other order; so does a search with no query and no filter. A later
  recommendation, whose ties fall back on the order of the field, then ranks the two
  templates the other way round.
\<close>

theorem getPopular_reorders_store:
  "runQueries [Popular 10] [template ''lead a'' [] [] 1, template ''lead b'' [] [] 2]
     = [template ''lead b'' [] [] 2, template ''lead a'' [] [] 1]
   \<and> runQueries [Search [] None] [template ''lead a'' [] [] 1, template ''lead b'' [] [] 2]
     = [template ''lead b'' [] [] 2, template ''lead a'' [] [] 1]
   \<and> fst (getRecommendedWorkflows [''lead'']
            [template ''lead a'' [] [] 1, template ''lead b'' [] [] 2])
     = [template ''lead a'' [] [] 1, template ''lead b'' [] [] 2]
   \<and> fst (getRecommendedWorkflows [''lead'']
            (runQueries [Popular 10] [template ''lead a'' [] [] 1, template ''lead b'' [] [] 2]))
     = [template ''lead b'' [] [] 2, template ''lead a'' [] [] 1]"
  by (simp add: runQueries_def getPopularWorkflows_def searchWorkflows_def
        getRecommendedWorkflows_def sortByPopularity_def template_def slice0_def
        flt_category_def flt_difficulty_def flt_tags_def flt_integration_def
        scoreOf_def scoreStep_def toLowerCase_def toLowerChar_def)

text \<open>
  C5 as stated fails when the query is cut by a whitespace character other than the
  space: the code cuts at spaces only. The query is \<open>order\<close>, a tab, \<open>payment\<close>;
  the template is named \<open>order payment\<close>. Both pieces of the query occur in the name,
  and the search returns nothing.
\<close>

theorem search_tab_query_counterexample:
  "spec_search_match (''order'' @ [CHR 0x09] @ ''payment'') (template ''order payment'' [] [] 1)
   \<and> template ''order payment'' [] [] 1
       \<notin> set (fst (searchWorkflows (''order'' @ [CHR 0x09] @ ''payment'') None
                   [template ''order payment'' [] [] 1]))"
  by (simp add: spec_search_match_def whitespaceTokens_def isWhitespace_def occursIn_def
        searchWorkflows_def split_space_def isSpace_def termMatches_def template_def
        toLowerCase_def toLowerChar_def sublist_code sortByPopularity_def
        flt_category_def flt_difficulty_def flt_tags_def flt_integration_def)

text \<open>
  C5, amended. For a non-empty query, a loaded template is in the result of
  \<^verbatim>\<open>searchWorkflows\<close> exactly when every non-empty piece of the lower-cased
  query between space characters is a substring of the lower-cased name, of the
  lower-cased description or of a lower-cased tag, and the template passes every filter
  supplied: equal category, equal difficulty, a tag among the filter's tags, an
  integration of the filter's service name up to case.
\<close>

theorem search_conjunctive_space_tokens:
  assumes "query \<noteq> []"
  shows "w \<in> set (fst (searchWorkflows query fo workflows)) \<longleftrightarrow>
           w \<in> set workflows
           \<and> (\<forall>t \<in> set (spaceTokens (toLowerCase query)). occursIn t w)
           \<and> satisfiesFilters fo w"
proof -
  let ?r1 = "filter (\<lambda>x. list_all (termMatches x) (split_space (toLowerCase query))) workflows"
  have "fst (searchWorkflows query fo workflows) = fst (searchWorkflows [] fo ?r1)"
    using assms by (simp add: searchWorkflows_def Let_def)
  then have "w \<in> set (fst (searchWorkflows query fo workflows))
               \<longleftrightarrow> w \<in> set ?r1 \<and> satisfiesFilters fo w"
    by (simp add: search_filters_member)
  then show ?thesis
    by (auto simp: all_terms_iff_all_tokens)
qed

text \<open>
  The instance of the specification: for the query \<open>order payment\<close>, a template with
  both words is returned and a template with \<open>order\<close> alone is not.
\<close>

theorem search_conjunctive_space_tokens_witness:
  "''order payment'' \<noteq> []
   \<and> template ''Order Hub'' ''takes payment'' [] 1
       \<in> set (fst (searchWorkflows ''order payment'' None
                   [template ''Order Sync'' [] [''orders''] 2,
                    template ''Order Hub'' ''takes payment'' [] 1]))
   \<and> template ''Order Sync'' [] [''orders''] 2
       \<notin> set (fst (searchWorkflows ''order payment'' None
                   [template ''Order Sync'' [] [''orders''] 2,
                    template ''Order Hub'' ''takes payment'' [] 1]))"
  using search_conjunctive_space_tokens
          [of "''order payment''" "template ''Order Hub'' ''takes payment'' [] 1" None
              "[template ''Order Sync'' [] [''orders''] 2,
                template ''Order Hub'' ''takes payment'' [] 1]"]
        search_conjunctive_space_tokens
          [of "''order payment''" "template ''Order Sync'' [] [''orders''] 2" None
              "[template ''Order Sync'' [] [''orders''] 2,
                template ''Order Hub'' ''takes payment'' [] 1]"]
  by (simp add: spaceTokens_def isSpace_def occursIn_def satisfiesFilters_def template_def
        toLowerCase_def toLowerChar_def sublist_code
        flt_category_def flt_difficulty_def flt_tags_def flt_integration_def)

subsection \<open>Recommendation\<close>

lemma foldl_scoreStep:
  "foldl (scoreStep w) a ks =
     a + 3 * int (length (filter (nameHit w) ks))
       + 2 * int (length (filter (descriptionHit w) ks))
       + int (length (filter (tagHit w) ks))"
proof (induction ks arbitrary: a)
  case Nil
  then show ?case by simp
next
  case (Cons k ks)
  have step: "scoreStep w a k =
                a + (if nameHit w k then 3 else 0) + (if descriptionHit w k then 2 else 0)
                  + (if tagHit w k then 1 else 0)"
    by (simp add: scoreStep_def nameHit_def descriptionHit_def tagHit_def
          str_includes_sublist list_ex_iff)
  show ?case
    by (simp add: Cons.IH step)
qed

lemma scoreOf_formula:
  "scoreOf ks w =
     3 * int (length (filter (nameHit w) ks))
       + 2 * int (length (filter (descriptionHit w) ks))
       + int (length (filter (tagHit w) ks))"
  by (simp add: scoreOf_def foldl_scoreStep)

lemma insort_key_pairs:
  "insort_key (\<lambda>it. - snd it) (x, f x) (map (\<lambda>w. (w, f w)) ys)
     = map (\<lambda>w. (w, f w)) (insort_key (\<lambda>w. - f w) x ys)"
  by (induction ys) simp_all

lemma sort_key_pairs:
  "sort_key (\<lambda>it. - snd it) (map (\<lambda>w. (w, f w)) xs)
     = map (\<lambda>w. (w, f w)) (sort_key (\<lambda>w. - f w) xs)"
  by (induction xs) (simp_all add: insort_key_pairs)

lemma recommended_as_ranking:
  "fst (getRecommendedWorkflows requirements workflows)
     = take 10 (sort_key (\<lambda>w. - scoreOf (map toLowerCase requirements) w)
                  (filter (\<lambda>w. scoreOf (map toLowerCase requirements) w > 0) workflows))"
proof -
  let ?f = "scoreOf (map toLowerCase requirements)"
  have "filter (\<lambda>item. snd item > 0) (map (\<lambda>w. (w, ?f w)) workflows)
          = map (\<lambda>w. (w, ?f w)) (filter (\<lambda>w. ?f w > 0) workflows)"
    by (simp add: filter_map comp_def)
  then show ?thesis
    by (simp add: getRecommendedWorkflows_def Let_def slice0_def sort_key_pairs
          take_map comp_def)
qed

text \<open>In a list sorted downwards, an element of larger score stands further left.\<close>

lemma ranked_before:
  assumes srt: "sorted_wrt (\<lambda>a b. f a \<ge> f b) xs"
    and a: "a \<in> set xs" and j: "j < length xs" and gt: "f a > (f (xs ! j) :: int)"
  shows "\<exists>i < j. xs ! i = a"
proof -
  from a obtain i where i: "i < length xs" "xs ! i = a"
    by (auto simp: in_set_conv_nth)
  have "i < j"
  proof (rule ccontr)
    assume "\<not> i < j"
    then have "j = i \<or> j < i" by auto
    then show False
    proof
      assume "j = i"
      with i gt show False by simp
    next
      assume "j < i"
      then have "f (xs ! j) \<ge> f (xs ! i)"
        using sorted_wrt_nth_less [OF srt _ i(1), of j] by simp
      with i gt show False by simp
    qed
  qed
  with i show ?thesis by auto
qed

lemma ranking_sorted:
  "sorted_wrt (\<lambda>a b. f a \<ge> (f b :: int)) (sort_key (\<lambda>w. - f w) xs)"
proof -
  have "sorted (map (\<lambda>w. - f w) (sort_key (\<lambda>w. - f w) xs))"
    by (rule sorted_sort_key)
  then show ?thesis
    by (simp add: sorted_map)
qed

lemma ranking_stable:
  "filter (\<lambda>w. f w = s) (sort_key (\<lambda>w. - f w) (filter (\<lambda>w. f w > 0) xs))
     = filter (\<lambda>w. f w = s \<and> 0 < (s :: int)) xs"
proof -
  have "filter (\<lambda>w. f w = s) (sort_key (\<lambda>w. - f w) (filter (\<lambda>w. f w > 0) xs))
          = filter (\<lambda>w. - f w = - s) (sort_key (\<lambda>w. - f w) (filter (\<lambda>w. f w > 0) xs))"
    by simp
  also have "\<dots> = filter (\<lambda>w. - f w = - s) (filter (\<lambda>w. f w > 0) xs)"
    by (rule sort_key_stable)
  also have "\<dots> = filter (\<lambda>w. f w = s \<and> 0 < s) xs"
    by (auto intro: filter_cong)
  finally show ?thesis .
qed

lemma lead_scores:
  assumes "wt_name a = ''Lead Scoring''"
    and "\<not> nameHit b ''lead''" "\<not> descriptionHit b ''lead''" "tagHit b ''lead''"
  shows "scoreOf [''lead''] a \<ge> 3" and "scoreOf [''lead''] b = 1"
proof -
  have "nameHit a ''lead''"
    using assms(1) by (simp add: nameHit_def toLowerCase_def toLowerChar_def sublist_code)
  then show "scoreOf [''lead''] a \<ge> 3"
    by (simp add: scoreOf_formula)
  show "scoreOf [''lead''] b = 1"
    using assms(2-4) by (simp add: scoreOf_formula)
qed

text \<open>
  C6. With the lower-cased requirement texts as keywords, the score of a template is
  3 for each keyword that hits the name, plus 2 for each that hits the description,
  plus 1 for each that hits some tag. The result is the first ten entries of a ranking
  that holds exactly the loaded templates of positive score, is sorted by score
  downwards, and keeps templates of equal score in their loaded order. A loaded template
  of larger score than an entry of the result stands before that entry. For the single
  requirement \<open>lead\<close>, a loaded template named \<open>Lead Scoring\<close> scores at least 3, a
  template hit in a tag only scores 1, and if the latter is in the result the former
  stands before it.
\<close>

theorem recommend_scoring:
  "(let score = scoreOf (map toLowerCase requirements);
        res = fst (getRecommendedWorkflows requirements workflows)
    in (\<forall>w. score w = 3 * int (length (filter (nameHit w) (map toLowerCase requirements)))
                     + 2 * int (length (filter (descriptionHit w) (map toLowerCase requirements)))
                     + int (length (filter (tagHit w) (map toLowerCase requirements))))
     \<and> (\<exists>ranked. res = take 10 ranked
            \<and> (\<forall>s. filter (\<lambda>w. score w = s) ranked = filter (\<lambda>w. score w = s \<and> 0 < s) workflows)
            \<and> sorted_wrt (\<lambda>a b. score a \<ge> score b) ranked)
     \<and> (\<forall>w j. w \<in> set workflows \<and> j < length res \<and> score w > score (res ! j)
            \<longrightarrow> (\<exists>i < j. res ! i = w))
     \<and> (requirements = [''lead''] \<and> wt_name a = ''Lead Scoring'' \<and> a \<in> set workflows
          \<and> \<not> nameHit b ''lead'' \<and> \<not> descriptionHit b ''lead'' \<and> tagHit b ''lead''
          \<and> j < length res \<and> res ! j = b
          \<longrightarrow> score a \<ge> 3 \<and> score b = 1 \<and> (\<exists>i < j. res ! i = a)))"
proof -
  define score where "score = scoreOf (map toLowerCase requirements)"
  define ranked where "ranked = sort_key (\<lambda>w. - score w) (filter (\<lambda>w. score w > 0) workflows)"
  define res where "res = fst (getRecommendedWorkflows requirements workflows)"
  have res: "res = take 10 ranked"
    unfolding res_def ranked_def score_def by (rule recommended_as_ranking)
  have formula: "\<forall>w. score w = 3 * int (length (filter (nameHit w) (map toLowerCase requirements)))
                     + 2 * int (length (filter (descriptionHit w) (map toLowerCase requirements)))
                     + int (length (filter (tagHit w) (map toLowerCase requirements)))"
    unfolding score_def by (simp add: scoreOf_formula)
  have srt: "sorted_wrt (\<lambda>a b. score a \<ge> score b) ranked"
    unfolding ranked_def by (rule ranking_sorted)
  have stable: "\<forall>s. filter (\<lambda>w. score w = s) ranked = filter (\<lambda>w. score w = s \<and> 0 < s) workflows"
    unfolding ranked_def by (simp add: ranking_stable)
  have before: "\<exists>i < j. res ! i = w"
    if w: "w \<in> set workflows" and j: "j < length res" and gt: "score w > score (res ! j)"
    for w j
  proof -
    have jr: "j < length ranked" "j < 10" "res ! j = ranked ! j"
      using j res by simp_all
    have "score (res ! j) > 0"
    proof -
      have "res ! j \<in> set ranked"
        using jr by simp
      then show ?thesis
        by (simp add: ranked_def)
    qed
    with gt have "score w > 0" by simp
    with w have "w \<in> set ranked"
      by (simp add: ranked_def)
    from ranked_before [OF srt this jr(1)] gt jr(3)
    obtain i where "i < j" "ranked ! i = w" by auto
    with jr res have "res ! i = w" by simp
    with \<open>i < j\<close> show ?thesis by blast
  qed
  have lead: "score a \<ge> 3 \<and> score b = 1 \<and> (\<exists>i < j. res ! i = a)"
    if "requirements = [''lead'']" "wt_name a = ''Lead Scoring''" "a \<in> set workflows"
      "\<not> nameHit b ''lead''" "\<not> descriptionHit b ''lead''" "tagHit b ''lead''"
      "j < length res" "res ! j = b"
  proof -
    have kws: "map toLowerCase requirements = [''lead'']"
      using that(1) by (simp add: toLowerCase_def toLowerChar_def)
    have sa: "score a \<ge> 3" and sb: "score b = 1"
      unfolding score_def kws using lead_scores [OF that(2,4,5,6)] by simp_all
    then have "score a > score (res ! j)"
      using that(8) by simp
    from before [OF that(3,7) this] sa sb show ?thesis by simp
  qed
  show ?thesis
    unfolding Let_def
    using formula res stable srt before lead
    unfolding score_def res_def
    by blast
qed

text \<open>
  An instance: \<open>Lead Scoring\<close> is loaded after a template tagged \<open>leads\<close> and after a
  template that does not mention the word; it comes first in the result.
\<close>

theorem recommend_scoring_witness:
  "fst (getRecommendedWorkflows [''lead'']
          [template ''Nurture'' ''mail flow'' [''leads''] 9,
           template ''Invoices'' ''billing'' [''ocr''] 8,
           template ''Lead Scoring'' ''ranks prospects'' [] 1])
     = [template ''Lead Scoring'' ''ranks prospects'' [] 1,
        template ''Nurture'' ''mail flow'' [''leads''] 9]
   \<and> scoreOf [''lead''] (template ''Lead Scoring'' ''ranks prospects'' [] 1) = 3
   \<and> scoreOf [''lead''] (template ''Nurture'' ''mail flow'' [''leads''] 9) = 1
   \<and> scoreOf [''lead''] (template ''Invoices'' ''billing'' [''ocr''] 8) = 0"
proof -
  let ?ws = "[template ''Nurture'' ''mail flow'' [''leads''] 9,
              template ''Invoices'' ''billing'' [''ocr''] 8,
              template ''Lead Scoring'' ''ranks prospects'' [] 1]"
  let ?a = "template ''Lead Scoring'' ''ranks prospects'' [] 1"
  let ?b = "template ''Nurture'' ''mail flow'' [''leads''] 9"
  have ev: "fst (getRecommendedWorkflows [''lead''] ?ws) = [?a, ?b]"
    by (simp add: getRecommendedWorkflows_def slice0_def template_def scoreOf_def scoreStep_def
          toLowerCase_def toLowerChar_def)
  have hyp: "[''lead''] = [''lead''] \<and> wt_name ?a = ''Lead Scoring'' \<and> ?a \<in> set ?ws
          \<and> \<not> nameHit ?b ''lead'' \<and> \<not> descriptionHit ?b ''lead'' \<and> tagHit ?b ''lead''
          \<and> 1 < length (fst (getRecommendedWorkflows [''lead''] ?ws))
          \<and> fst (getRecommendedWorkflows [''lead''] ?ws) ! 1 = ?b"
    unfolding ev
    by (simp add: template_def nameHit_def descriptionHit_def tagHit_def
          toLowerCase_def toLowerChar_def sublist_code)
  have lc: "map toLowerCase [''lead''] = [''lead'']"
    by (simp add: toLowerCase_def toLowerChar_def)
  from recommend_scoring [of "[''lead'']" ?ws ?a ?b 1] hyp
  have "scoreOf [''lead''] ?a \<ge> 3 \<and> scoreOf [''lead''] ?b = 1"
    unfolding Let_def lc by blast
  moreover have "scoreOf [''lead''] ?a = 3"
    by (simp add: template_def scoreOf_def scoreStep_def toLowerCase_def toLowerChar_def)
  moreover have "scoreOf [''lead''] (template ''Invoices'' ''billing'' [''ocr''] 8) = 0"
    by (simp add: template_def scoreOf_def scoreStep_def toLowerCase_def toLowerChar_def)
  ultimately show ?thesis
    using ev by simp
qed

section \<open>Completeness of the requirements\<close>

lemma completeness_card:
  "assessRequirementsCompleteness reqs
     = of_nat (card ({BusinessProcess, TechnicalSpecs, Integrations, ScaleVolume}
                       \<inter> category ` set reqs)) / 4"
proof -
  have d: "distinct criticalCategories"
    by (simp add: criticalCategories_def)
  have s: "set criticalCategories = {BusinessProcess, TechnicalSpecs, Integrations, ScaleVolume}"
    by (simp add: criticalCategories_def)
  have "length (filter (\<lambda>cat. cat \<in> category ` set reqs) criticalCategories)
          = card ({cat. cat \<in> category ` set reqs} \<inter> set criticalCategories)"
    using d by (rule distinct_length_filter)
  also have "\<dots> = card ({BusinessProcess, TechnicalSpecs, Integrations, ScaleVolume}
                          \<inter> category ` set reqs)"
    unfolding s by (simp add: Int_commute)
  finally show ?thesis
    by (simp add: assessRequirementsCompleteness_def criticalCategories_def)
qed

text \<open>
  C7. The completeness is the number of the four critical categories that occur among
  the requirements, divided by 4; two requirement lists with the same set of categories
  have the same completeness; a further requirement of a category already present does
  not change it.
\<close>

theorem completeness_set_based:
  "assessRequirementsCompleteness reqs
     = of_nat (card ({BusinessProcess, TechnicalSpecs, Integrations, ScaleVolume}
                       \<inter> category ` set reqs)) / 4
   \<and> (category ` set reqs = category ` set reqs'
        \<longrightarrow> assessRequirementsCompleteness reqs = assessRequirementsCompleteness reqs')
   \<and> (category r \<in> category ` set reqs
        \<longrightarrow> assessRequirementsCompleteness (reqs @ [r]) = assessRequirementsCompleteness reqs)"
proof -
  have "category ` set (reqs @ [r]) = category ` set reqs" if "category r \<in> category ` set reqs"
    using that by auto
  then show ?thesis
    by (simp add: completeness_card)
qed

theorem completeness_set_based_witness:
  "assessRequirementsCompleteness
     [\<lparr> r_id = ''1'', category = Integrations, question = ''q'', answer = Some ''use the api'', r_tags = [] \<rparr>]
     = 1 / 4
   \<and> assessRequirementsCompleteness
       ([\<lparr> r_id = ''1'', category = Integrations, question = ''q'', answer = Some ''use the api'', r_tags = [] \<rparr>]
        @ [\<lparr> r_id = ''2'', category = Integrations, question = ''q'', answer = Some ''a webhook'', r_tags = [] \<rparr>])
     = 1 / 4"
proof -
  let ?r1 = "\<lparr> r_id = ''1'', category = Integrations, question = ''q'', answer = Some ''use the api'', r_tags = [] \<rparr>"
  let ?r2 = "\<lparr> r_id = ''2'', category = Integrations, question = ''q'', answer = Some ''a webhook'', r_tags = [] \<rparr>"
  have v: "assessRequirementsCompleteness [?r1] = 1 / 4"
    by (simp add: assessRequirementsCompleteness_def criticalCategories_def)
  have "category ?r2 \<in> category ` set [?r1]"
    by simp
  with completeness_set_based [of "[?r1]" "[?r1]" ?r2]
  have "assessRequirementsCompleteness ([?r1] @ [?r2]) = assessRequirementsCompleteness [?r1]"
    by blast
  with v show ?thesis by simp
qed

section \<open>Costs and return on investment\<close>

lemma calculateROI_cong:
  "\<lfloor>u * 20\<rfloor> = \<lfloor>u' * 20\<rfloor> \<Longrightarrow> calculateROI u reqs costs = calculateROI u' reqs' costs"
  by (simp add: calculateROI_def)

lemma draw_bucket:
  assumes "0 \<le> u" "u < (1::rat)"
  shows "0 \<le> \<lfloor>u * 20\<rfloor>" and "\<lfloor>u * 20\<rfloor> < 20"
proof -
  from assms(1) have "0 \<le> u * 20" by simp
  then show "0 \<le> \<lfloor>u * 20\<rfloor>" by simp
  from assms(2) have "u * 20 < 20" by simp
  then show "\<lfloor>u * 20\<rfloor> < 20" by (simp add: floor_less_iff)
qed

lemma roiOutcomes_complete:
  assumes "0 \<le> u" "u < 1"
  shows "threeYearROI (calculateROI u reqs costs) \<in> set (roiOutcomes reqs costs)"
proof -
  define k where "k = nat \<lfloor>u * 20\<rfloor>"
  have k: "k < 20" "int k = \<lfloor>u * 20\<rfloor>"
    using draw_bucket [OF assms] unfolding k_def by linarith+
  have "\<lfloor>(of_nat k / 20 :: rat) * 20\<rfloor> = int k"
    by simp
  then have "calculateROI u reqs costs = calculateROI (of_nat k / 20) reqs costs"
    using k(2) by (intro calculateROI_cong) simp
  then show ?thesis
    using k(1) by (auto simp: roiOutcomes_def)
qed

text \<open>
  C3 as stated fails: the weekly time saving is drawn with \<^verbatim>\<open>Math.random\<close>. For the
  cost estimate of the agent's blueprint (8 hours of development), a draw of \<open>0\<close> gives
  a three-year return of 177 and a draw of \<open>1/2\<close> gives 454.
\<close>

theorem calculateROI_two_draws_counterexample:
  "threeYearROI (calculateROI 0 [] (costsOf (createProjectBlueprint ''b''))) = Fin 177
   \<and> threeYearROI (calculateROI (1 / 2) [] (costsOf (createProjectBlueprint ''b''))) = Fin 454"
  by (simp add: calculateROI_def costsOf_def createProjectBlueprint_def calculateCosts_def
        js_div_def Let_def floor_eq_iff)

text \<open>
  C3, amended. The projection is a function of the cost estimate and of the number
  drawn, and of the number drawn only through \<^verbatim>\<open>Math.floor(Math.random() * 20)\<close>:
  two calls with the same costs and the same value of that expression return the same
  projection, whatever the requirement lists. The weekly time saving is between 10 and
  29 hours.
\<close>

theorem calculateROI_determined_by_draw:
  "(\<lfloor>u * 20\<rfloor> = \<lfloor>u' * 20\<rfloor> \<longrightarrow> calculateROI u reqs costs = calculateROI u' reqs' costs)
   \<and> (0 \<le> u \<and> u < 1 \<longrightarrow>
        10 \<le> timeSavingsHoursPerWeek (calculateROI u reqs costs)
        \<and> timeSavingsHoursPerWeek (calculateROI u reqs costs) \<le> 29)"
proof -
  have "10 \<le> timeSavingsHoursPerWeek (calculateROI u reqs costs)
        \<and> timeSavingsHoursPerWeek (calculateROI u reqs costs) \<le> 29" if "0 \<le> u" "u < 1"
    using draw_bucket [OF that] by (simp add: calculateROI_def Let_def)
  then show ?thesis
    using calculateROI_cong by blast
qed

theorem calculateROI_determined_by_draw_witness:
  "calculateROI (1 / 2) [] (costsOf (createProjectBlueprint ''b''))
     = calculateROI (21 / 40)
         [\<lparr> r_id = ''1'', category = Integrations, question = ''q'', answer = Some ''an api'', r_tags = [] \<rparr>]
         (costsOf (createProjectBlueprint ''b''))
   \<and> timeSavingsHoursPerWeek (calculateROI (1 / 2) [] (costsOf (createProjectBlueprint ''b''))) = 20"
proof -
  have "\<lfloor>(21 / 40 :: rat) * 20\<rfloor> = 10"
    by (simp add: floor_eq_iff)
  then have h1: "\<lfloor>(1 / 2 :: rat) * 20\<rfloor> = \<lfloor>(21 / 40 :: rat) * 20\<rfloor>"
    by simp
  have h2: "(0::rat) \<le> 1 / 2 \<and> (1 / 2 :: rat) < 1"
    by simp
  have "timeSavingsHoursPerWeek (calculateROI (1 / 2) [] (costsOf (createProjectBlueprint ''b''))) = 20"
    by (simp add: calculateROI_def Let_def)
  with calculateROI_determined_by_draw
         [of "1 / 2" "21 / 40" "[]" "costsOf (createProjectBlueprint ''b'')"
             "[\<lparr> r_id = ''1'', category = Integrations, question = ''q'', answer = Some ''an api'', r_tags = [] \<rparr>]"]
       h1 h2
  show ?thesis by blast
qed

text \<open>
  C2 as stated fails for the agent's blueprint: its \<^verbatim>\<open>estimatedROI\<close> is the literal
  250, and 250 is none of the values that \<^verbatim>\<open>calculateROI\<close> can return for the cost
  estimate of that blueprint.
\<close>

theorem agent_blueprint_roi_counterexample:
  "estimatedROI (createProjectBlueprint ''b'')
     \<notin> set (roiOutcomes [] (costsOf (createProjectBlueprint ''b'')))"
  by (simp add: roiOutcomes_def upt_conv_Cons calculateROI_def costsOf_def
        createProjectBlueprint_def calculateCosts_def js_div_def Let_def)
     (simp add: floor_eq_iff)

subsection \<open>The requirement text\<close>

lemma lowerAnswers_present:
  "answersPresent reqs \<Longrightarrow> lowerAnswers reqs = Inr (map (\<lambda>r. toLowerCase (the (answer r))) reqs)"
  by (induction reqs) (auto simp: answersPresent_def)


lemma contentOf_present:
  "answersPresent reqs \<Longrightarrow> \<exists>content. contentOf reqs = Inr content"
  by (simp add: contentOf_def lowerAnswers_present)


lemma contentOf_Nil [simp]: "contentOf [] = Inr []"
  by (simp add: contentOf_def)

lemma readers_total:
  assumes "contentOf reqs = Inr content"
  shows "\<exists>x. contentIncludesAny reqs ks = Inr x"
    and "\<exists>x. countIntegrations reqs = Inr x"
    and "\<exists>x. identifyDomain reqs = Inr x"
    and "\<exists>x. getIntegrationNodes reqs = Inr x"
    and "\<exists>x. extractMentionedServices reqs = Inr x"
  by (simp_all add: contentIncludesAny_def countIntegrations_def identifyDomain_def
        getIntegrationNodes_def extractMentionedServices_def mapE_total_iff assms)

lemma analyzeRequirements_total:
  assumes "contentOf reqs = Inr content"
  shows "\<exists>a. analyzeRequirements reqs = Inr a"
proof -
  note r = readers_total [OF assms]
  have "\<exists>x. complexityScore reqs = Inr x"
    unfolding complexityScore_def bindE_total_iff Let_def
      requiresAI_def hasComplexBusinessLogic_def hasComplianceRequirements_def
    using r(1,2) by blast
  then have "\<exists>x. assessComplexity reqs = Inr x"
    by (simp add: assessComplexity_def mapE_total_iff)
  with r(2,3) show ?thesis
    unfolding analyzeRequirements_def bindE_total_iff by blast
qed

lemma generateTechnicalArchitecture_total:
  assumes "contentOf reqs = Inr content"
  shows "\<exists>a. generateTechnicalArchitecture reqs analysis = Inr a"
proof -
  note r = readers_total [OF assms]
  have "\<exists>x. generateComponents reqs = Inr x"
    unfolding generateComponents_def bindE_total_iff
      requiresDataProcessing_def requiresAI_def requiresStorage_def
    using r(1,4) by blast
  moreover have "\<exists>x. generateIntegrationSpecs reqs = Inr x"
    using r(5) by (simp add: generateIntegrationSpecs_def mapE_total_iff)
  ultimately show ?thesis
    unfolding generateTechnicalArchitecture_def bindE_total_iff by blast
qed

lemma generateComprehensiveBlueprint_total:
  assumes "answersPresent reqs"
  shows "\<exists>blueprint costs roi.
           generateComprehensiveBlueprint newId u reqs config = Inr (blueprint, costs, roi)"
proof -
  from contentOf_present [OF assms] obtain content where c: "contentOf reqs = Inr content" ..
  from analyzeRequirements_total [OF c] obtain a where a: "analyzeRequirements reqs = Inr a" ..
  from generateTechnicalArchitecture_total [OF c, of a] obtain arch
    where arch: "generateTechnicalArchitecture reqs a = Inr arch" ..
  show ?thesis
    by (simp add: generateComprehensiveBlueprint_def a arch Let_def)
qed

lemma generateComprehensiveBlueprint_result:
  assumes "generateComprehensiveBlueprint newId u reqs config = Inr (blueprint, costs, roi)"
  shows "\<exists>arch. technicalArchitecture blueprint = Some arch
           \<and> implementationPlan blueprint = generateImplementationPlan arch config
           \<and> costs = calculateCosts (implementationPlan blueprint) arch
           \<and> roi = calculateROI u reqs costs
           \<and> estimatedROI blueprint = threeYearROI roi"
proof -
  from assms obtain analysis arch where
    "analyzeRequirements reqs = Inr analysis"
    "generateTechnicalArchitecture reqs analysis = Inr arch"
    and res: "(let plan = generateImplementationPlan arch config;
                costEstimation = calculateCosts plan arch;
                roiProjection = calculateROI u reqs costEstimation;
                bp = \<lparr> b_id = newId,
                       title = Some (generateProjectTitle reqs analysis),
                       technicalArchitecture = Some arch,
                       implementationPlan = plan,
                       estimatedROI = threeYearROI roiProjection \<rparr>
            in Inr (bp, costEstimation, roiProjection) :: error + _)
           = Inr (blueprint, costs, roi)"
    unfolding generateComprehensiveBlueprint_def bindE_Inr_iff by blast
  from res have "technicalArchitecture blueprint = Some arch
           \<and> implementationPlan blueprint = generateImplementationPlan arch config
           \<and> costs = calculateCosts (implementationPlan blueprint) arch
           \<and> roi = calculateROI u reqs costs
           \<and> estimatedROI blueprint = threeYearROI roi"
    unfolding Let_def by auto
  then show ?thesis by blast
qed

text \<open>
  C2, amended. Whenever \<^verbatim>\<open>generateComprehensiveBlueprint\<close> returns a blueprint, the
  cost estimate is \<^verbatim>\<open>calculateCosts\<close> of the blueprint's plan and architecture, the
  projection is \<^verbatim>\<open>calculateROI\<close> of that estimate, and \<^verbatim>\<open>estimatedROI\<close> is the
  \<^verbatim>\<open>threeYearROI\<close> of that projection; and it returns a blueprint for every
  requirement list whose records carry an answer. In \<^verbatim>\<open>createProjectBlueprint\<close> the
  field is the constant 250.
\<close>

theorem estimatedROI_derivation:
  "(generateComprehensiveBlueprint newId u reqs config = Inr (blueprint, costs, roi) \<longrightarrow>
      costs = costsOf blueprint
      \<and> roi = calculateROI u reqs costs
      \<and> estimatedROI blueprint = threeYearROI roi
      \<and> estimatedROI blueprint = threeYearROI (calculateROI u reqs (costsOf blueprint)))
   \<and> (answersPresent reqs \<longrightarrow>
        (\<exists>bp cs r. generateComprehensiveBlueprint newId u reqs config = Inr (bp, cs, r)))
   \<and> estimatedROI (createProjectBlueprint newId') = Fin 250"
proof -
  have "costs = costsOf blueprint \<and> roi = calculateROI u reqs costs
        \<and> estimatedROI blueprint = threeYearROI roi
        \<and> estimatedROI blueprint = threeYearROI (calculateROI u reqs (costsOf blueprint))"
    if "generateComprehensiveBlueprint newId u reqs config = Inr (blueprint, costs, roi)"
    using generateComprehensiveBlueprint_result [OF that]
    by (auto simp: costsOf_def)
  then show ?thesis
    using generateComprehensiveBlueprint_total [of reqs newId u config]
    by (simp add: createProjectBlueprint_def)
qed

text \<open>
  An instance: no requirements, a simple project on a normal timeline, and a draw of
  \<open>1/2\<close>. The plan has 101 hours, so the three-year costs are 35300 and the return is
  308 per cent.
\<close>

theorem estimatedROI_derivation_witness:
  "answersPresent []
   \<and> mapE (\<lambda>(blueprint, costs, roi). estimatedROI blueprint)
       (generateComprehensiveBlueprint ''b'' (1 / 2) []
          \<lparr> cfg_projectType = Automation, cfg_complexity = Simple, cfg_timeline = Normal,
            cfg_budget = StandardBudget, cfg_riskTolerance = MediumRisk \<rparr>)
     = Inr (Fin 308)"
proof -
  let ?cfg = "\<lparr> cfg_projectType = Automation, cfg_complexity = Simple, cfg_timeline = Normal,
                 cfg_budget = StandardBudget, cfg_riskTolerance = MediumRisk \<rparr>"
  have ap: "answersPresent []"
    by (simp add: answersPresent_def)
  with estimatedROI_derivation [where newId = "''b''" and u = "1 / 2" and reqs = "[]"
                                  and config = ?cfg]
  obtain bp cs r where res: "generateComprehensiveBlueprint ''b'' (1 / 2) [] ?cfg = Inr (bp, cs, r)"
    by blast
  from estimatedROI_derivation [where newId = "''b''" and u = "1 / 2" and reqs = "[]"
                                  and config = ?cfg and blueprint = bp and costs = cs and roi = r]
       res
  have roi: "estimatedROI bp = threeYearROI (calculateROI (1 / 2) [] (costsOf bp))"
    by blast
  from generateComprehensiveBlueprint_result [OF res] obtain arch
    where plan: "implementationPlan bp = generateImplementationPlan arch ?cfg"
    by blast
  have "threeYearROI (calculateROI (1 / 2) [] (costsOf bp)) = Fin 308"
    unfolding costsOf_def plan
    by (simp add: calculateROI_def calculateCosts_def generateImplementationPlan_def
          generateImplementationPhases_def estimateWorkflowHours_def js_div_def Let_def
          floor_eq_iff)
  with roi res ap show ?thesis
    by simp
qed

section \<open>The workflow builder\<close>

subsection \<open>Node ids\<close>

lemma digitChar_inj: "d < 10 \<Longrightarrow> e < 10 \<Longrightarrow> digitChar d = digitChar e \<Longrightarrow> d = e"
proof -
  assume "d < 10" "e < 10" "digitChar d = digitChar e"
  moreover have "distinct ''0123456789''" by simp
  ultimately show "d = e"
    unfolding digitChar_def by (simp add: nth_eq_iff_index_eq)
qed

lemma decimal_not_Nil: "decimal n \<noteq> []"
  by (subst decimal.simps) simp

lemma decimal_inj: "decimal n = decimal m \<Longrightarrow> n = m"
proof (induction n arbitrary: m rule: decimal.induct)
  case (1 n)
  show ?case
  proof (cases "n < 10")
    case small_n: True
    show ?thesis
    proof (cases "m < 10")
      case True
      with small_n "1.prems" have "digitChar n = digitChar m"
        by (simp add: decimal.simps [of n] decimal.simps [of m])
      with small_n True show ?thesis by (rule digitChar_inj)
    next
      case False
      with small_n "1.prems" have "decimal (m div 10) = []"
        by (simp add: decimal.simps [of n] decimal.simps [of m])
      then show ?thesis by (simp add: decimal_not_Nil)
    qed
  next
    case big_n: False
    show ?thesis
    proof (cases "m < 10")
      case True
      with big_n "1.prems" have "decimal (n div 10) = []"
        by (simp add: decimal.simps [of n] decimal.simps [of m])
      then show ?thesis by (simp add: decimal_not_Nil)
    next
      case False
      with big_n "1.prems"
      have eq: "decimal (n div 10) = decimal (m div 10)"
        and dg: "digitChar (n mod 10) = digitChar (m mod 10)"
        by (simp_all add: decimal.simps [of n] decimal.simps [of m])
      from "1.IH" [OF big_n eq] have "n div 10 = m div 10" .
      moreover from dg have "n mod 10 = m mod 10"
        by (intro digitChar_inj) simp_all
      ultimately show ?thesis
        by (metis div_mult_mod_eq)
    qed
  qed
qed

lemma nodeIdOf_inj: "inj nodeIdOf"
  by (rule injI) (simp add: nodeIdOf_def decimal_inj)

lemma idsFrom_distinct:
  assumes "idsFrom c ns c'"
  shows "distinct (map n_id ns)"
proof -
  from assms obtain ks where ks: "map n_id ns = map nodeIdOf ks" "sorted_wrt (<) ks"
    by (auto simp: idsFrom_def)
  from ks(2) have "distinct ks"
    by (simp add: strict_sorted_iff)
  then show ?thesis
    unfolding ks(1) by (simp add: distinct_map inj_on_subset [OF nodeIdOf_inj])
qed

lemma idsFrom_Nil [simp]: "idsFrom c [] c' \<longleftrightarrow> c \<le> c'"
  by (simp add: idsFrom_def)

lemma idsFrom_single:
  "n_id n = nodeIdOf k \<Longrightarrow> c \<le> k \<Longrightarrow> k < c' \<Longrightarrow> idsFrom c [n] c'"
  unfolding idsFrom_def by (auto intro!: exI [of _ "[k]"])

lemma idsFrom_append:
  assumes "idsFrom c ns c'" and "idsFrom c' ms c''"
  shows "idsFrom c (ns @ ms) c''"
proof -
  from assms(1) obtain ks where ks: "c \<le> c'" "map n_id ns = map nodeIdOf ks" "sorted_wrt (<) ks"
    "\<forall>k \<in> set ks. c \<le> k \<and> k < c'"
    by (auto simp: idsFrom_def)
  from assms(2) obtain ls where ls: "c' \<le> c''" "map n_id ms = map nodeIdOf ls" "sorted_wrt (<) ls"
    "\<forall>k \<in> set ls. c' \<le> k \<and> k < c''"
    by (auto simp: idsFrom_def)
  have "map n_id (ns @ ms) = map nodeIdOf (ks @ ls)"
    by (simp add: ks(2) ls(2))
  moreover have "sorted_wrt (<) (ks @ ls)"
    using ks(3,4) ls(3,4) by (fastforce simp: sorted_wrt_append)
  moreover have "\<forall>k \<in> set (ks @ ls). c \<le> k \<and> k < c''"
    using ks(1,4) ls(1,4) by fastforce
  ultimately show ?thesis
    unfolding idsFrom_def using ks(1) ls(1) by (intro conjI exI [of _ "ks @ ls"]) simp_all
qed

lemma idsFrom_widen: "idsFrom c ns c' \<Longrightarrow> c' \<le> c'' \<Longrightarrow> idsFrom c ns c''"
  using idsFrom_append [of c ns c' "[]" c''] by simp

text \<open>What each method that makes nodes does to the counter and which ids it hands out.\<close>

lemma mkNode_ids:
  assumes "mkNode name ty v b = (n, b')"
  shows "idsFrom (nodeIdCounter b) [n] (nodeIdCounter b')"
    and "n_name n = name" and "n_type n = ty" and "n_id n = nodeIdOf (nodeIdCounter b)"
  using assms
  by (auto simp: mkNode_def generateNodeId_def Let_def intro: idsFrom_single)

lemma createDataProcessingNode_ids:
  assumes "createDataProcessingNode b = (n, b')"
  shows "idsFrom (nodeIdCounter b) [n] (nodeIdCounter b')" and "n_name n = ''Transform Data''"
  using assms
  by (auto simp: createDataProcessingNode_def generateNodeId_def Let_def intro: idsFrom_single)

lemma createTriggerNode_ids:
  assumes "createTriggerNode reqs b = Inr (n, b')"
  shows "idsFrom (nodeIdCounter b) [n] (nodeIdCounter b')" and "n_name n \<in> mainNodeNames"
    and "n_id n = nodeIdOf (nodeIdCounter b)"
proof -
  from assms obtain tt where
    r: "(n, b') =
          (if tt = ''webhook'' then mkNode ''Webhook Trigger'' ''n8n-nodes-base.webhook'' 1 b
           else if tt = ''schedule'' then mkNode ''Schedule Trigger'' ''n8n-nodes-base.cron'' 1 b
           else if tt = ''email'' then mkNode ''Email Trigger'' ''n8n-nodes-base.emailReadImap'' 2 b
           else mkNode ''Manual Trigger'' ''n8n-nodes-base.manualTrigger'' 1 b)"
    unfolding createTriggerNode_def mapE_Inr_iff by blast
  then consider
      "mkNode ''Webhook Trigger'' ''n8n-nodes-base.webhook'' 1 b = (n, b')"
    | "mkNode ''Schedule Trigger'' ''n8n-nodes-base.cron'' 1 b = (n, b')"
    | "mkNode ''Email Trigger'' ''n8n-nodes-base.emailReadImap'' 2 b = (n, b')"
    | "mkNode ''Manual Trigger'' ''n8n-nodes-base.manualTrigger'' 1 b = (n, b')"
    by (metis (full_types))
  then have "idsFrom (nodeIdCounter b) [n] (nodeIdCounter b') \<and> n_name n \<in> mainNodeNames
             \<and> n_id n = nodeIdOf (nodeIdCounter b)"
  proof cases
    case 1
    from mkNode_ids [OF this] show ?thesis by (simp add: mainNodeNames_def)
  next
    case 2
    from mkNode_ids [OF this] show ?thesis by (simp add: mainNodeNames_def)
  next
    case 3
    from mkNode_ids [OF this] show ?thesis by (simp add: mainNodeNames_def)
  next
    case 4
    from mkNode_ids [OF this] show ?thesis by (simp add: mainNodeNames_def)
  qed
  then show "idsFrom (nodeIdCounter b) [n] (nodeIdCounter b')" and "n_name n \<in> mainNodeNames"
    and "n_id n = nodeIdOf (nodeIdCounter b)"
    by simp_all
qed

lemma createAIProcessingNode_result:
  assumes "createAIProcessingNode reqs b = Inr (n, b')"
  shows "mkNode ''AI Processing'' ''n8n-nodes-base.openAi'' 1 b = (n, b')"
  using assms unfolding createAIProcessingNode_def bindE_Inr_iff by auto

lemma processingNodeFor_ids:
  assumes "processingNodeFor reqs (ns, b) c = Inr (ns', b')"
  shows "\<exists>new. ns' = ns @ new \<and> idsFrom (nodeIdCounter b) new (nodeIdCounter b')
               \<and> n_name ` set new \<subseteq> mainNodeNames"
proof (cases "c_type c = Processor")
  case False
  with assms show ?thesis
    by (simp add: processingNodeFor_def)
next
  case True
  with assms obtain name where name: "c_name c = Some name"
    by (cases "c_name c") (simp_all add: processingNodeFor_def)
  from assms True name obtain n where n: "ns' = ns @ [n]"
    and mk: "(if str_includes name ''AI'' then createAIProcessingNode reqs b
              else if str_includes name ''Data'' then Inr (createDataProcessingNode b)
              else Inr (createGenericProcessingNode b)) = Inr (n, b')"
    by (auto simp: processingNodeFor_def mapE_Inr_iff)
  from mk have "idsFrom (nodeIdCounter b) [n] (nodeIdCounter b') \<and> n_name n \<in> mainNodeNames"
    by (auto simp: createGenericProcessingNode_def mainNodeNames_def
             dest: mkNode_ids createDataProcessingNode_ids createAIProcessingNode_result
             split: if_splits)
  with n show ?thesis by simp
qed

lemma foldE_processingNodeFor_ids:
  assumes "foldE (processingNodeFor reqs) (ns, b) cs = Inr (ns', b')"
  shows "\<exists>new. ns' = ns @ new \<and> idsFrom (nodeIdCounter b) new (nodeIdCounter b')
               \<and> n_name ` set new \<subseteq> mainNodeNames"
  using assms
proof (induction cs arbitrary: ns b)
  case Nil
  then show ?case by simp
next
  case (Cons c cs)
  from Cons.prems obtain ns1 b1 where s: "processingNodeFor reqs (ns, b) c = Inr (ns1, b1)"
    and rest: "foldE (processingNodeFor reqs) (ns1, b1) cs = Inr (ns', b')"
    by (cases "processingNodeFor reqs (ns, b) c") auto
  from processingNodeFor_ids [OF s] obtain new1 where
    n1: "ns1 = ns @ new1" "idsFrom (nodeIdCounter b) new1 (nodeIdCounter b1)"
        "n_name ` set new1 \<subseteq> mainNodeNames"
    by blast
  from Cons.IH [OF rest] obtain new2 where
    n2: "ns' = ns1 @ new2" "idsFrom (nodeIdCounter b1) new2 (nodeIdCounter b')"
        "n_name ` set new2 \<subseteq> mainNodeNames"
    by blast
  have "ns' = ns @ (new1 @ new2)"
    by (simp add: n1(1) n2(1))
  moreover have "idsFrom (nodeIdCounter b) (new1 @ new2) (nodeIdCounter b')"
    using n1(2) n2(2) by (rule idsFrom_append)
  moreover have "n_name ` set (new1 @ new2) \<subseteq> mainNodeNames"
    using n1(3) n2(3) by auto
  ultimately show ?case by blast
qed

lemma createProcessingNodes_ids:
  assumes "createProcessingNodes bp reqs b = Inr (ns, b')"
  shows "idsFrom (nodeIdCounter b) ns (nodeIdCounter b')"
    and "n_name ` set ns \<subseteq> mainNodeNames" and "ns \<noteq> []"
proof -
  from assms obtain ns1 b1 where
    f: "foldE (processingNodeFor reqs) ([], b) (componentsOf bp) = Inr (ns1, b1)"
    and r: "(ns, b') = (if length ns1 = 0 then
                          (let (n, b2) = createGenericProcessingNode b1 in (ns1 @ [n], b2))
                        else (ns1, b1))"
    unfolding createProcessingNodes_def mapE_Inr_iff by auto
  from foldE_processingNodeFor_ids [OF f]
  have i1: "idsFrom (nodeIdCounter b) ns1 (nodeIdCounter b1)" "n_name ` set ns1 \<subseteq> mainNodeNames"
    by auto
  have "idsFrom (nodeIdCounter b) ns (nodeIdCounter b') \<and> n_name ` set ns \<subseteq> mainNodeNames
          \<and> ns \<noteq> []"
  proof (cases "ns1 = []")
    case False
    with r i1 show ?thesis
      by simp
  next
    case True
    then obtain n where n: "createGenericProcessingNode b1 = (n, b')" "ns = [n]"
      using r by (auto simp: Let_def split: prod.splits)
    from n(1) have "idsFrom (nodeIdCounter b1) [n] (nodeIdCounter b')" "n_name n \<in> mainNodeNames"
      by (auto simp: createGenericProcessingNode_def mainNodeNames_def dest: mkNode_ids)
    with i1 True n(2) show ?thesis
      using idsFrom_append [of "nodeIdCounter b" "[]" "nodeIdCounter b1" "[n]" "nodeIdCounter b'"]
      by simp
  qed
  then show "idsFrom (nodeIdCounter b) ns (nodeIdCounter b')"
    and "n_name ` set ns \<subseteq> mainNodeNames" and "ns \<noteq> []"
    by simp_all
qed

lemma createIntegrationNodeForService_ids:
  assumes "createIntegrationNodeForService i b = (n, b')"
  shows "idsFrom (nodeIdCounter b) [n] (nodeIdCounter b')" and "n_name n \<in> mainNodeNames"
  using assms
  by (auto simp: createIntegrationNodeForService_def createHttpRequestNode_def Let_def
                 mainNodeNames_def
           dest: mkNode_ids split: if_splits)

lemma foldl_integrationNodeFor_ids:
  assumes "foldl integrationNodeFor (ns, b) is = (ns', b')"
  shows "\<exists>new. ns' = ns @ new \<and> idsFrom (nodeIdCounter b) new (nodeIdCounter b')
               \<and> n_name ` set new \<subseteq> mainNodeNames \<and> length new = length is"
  using assms
proof (induction "is" arbitrary: ns b)
  case Nil
  then show ?case by simp
next
  case (Cons i "is")
  obtain n b1 where s: "createIntegrationNodeForService i b = (n, b1)"
    by (cases "createIntegrationNodeForService i b")
  from createIntegrationNodeForService_ids [OF s]
  have n1: "idsFrom (nodeIdCounter b) [n] (nodeIdCounter b1)" "n_name n \<in> mainNodeNames"
    by auto
  from s have "integrationNodeFor (ns, b) i = (ns @ [n], b1)"
    by (simp add: integrationNodeFor_def)
  with Cons.prems have "foldl integrationNodeFor (ns @ [n], b1) is = (ns', b')"
    by simp
  from Cons.IH [OF this] obtain new2 where
    n2: "ns' = (ns @ [n]) @ new2" "idsFrom (nodeIdCounter b1) new2 (nodeIdCounter b')"
        "n_name ` set new2 \<subseteq> mainNodeNames" "length new2 = length is"
    by blast
  have "ns' = ns @ ([n] @ new2)"
    by (simp add: n2(1))
  moreover have "idsFrom (nodeIdCounter b) ([n] @ new2) (nodeIdCounter b')"
    using n1(1) n2(2) by (rule idsFrom_append)
  moreover have "n_name ` set ([n] @ new2) \<subseteq> mainNodeNames"
    using n1(2) n2(3) by auto
  moreover have "length ([n] @ new2) = length (i # is)"
    using n2(4) by simp
  ultimately show ?case by blast
qed

lemma createIntegrationNodes_ids:
  assumes "createIntegrationNodes bp b = (ns, b')"
  shows "idsFrom (nodeIdCounter b) ns (nodeIdCounter b')"
    and "n_name ` set ns \<subseteq> mainNodeNames" and "ns \<noteq> []"
proof -
  obtain ns1 b1 where f: "foldl integrationNodeFor ([], b) (integrationsOf bp) = (ns1, b1)"
    by (cases "foldl integrationNodeFor ([], b) (integrationsOf bp)")
  from foldl_integrationNodeFor_ids [OF f]
  have i1: "idsFrom (nodeIdCounter b) ns1 (nodeIdCounter b1)" "n_name ` set ns1 \<subseteq> mainNodeNames"
    by auto
  have "idsFrom (nodeIdCounter b) ns (nodeIdCounter b') \<and> n_name ` set ns \<subseteq> mainNodeNames
          \<and> ns \<noteq> []"
  proof (cases "ns1 = []")
    case False
    with assms f i1 show ?thesis
      by (simp add: createIntegrationNodes_def)
  next
    case True
    then obtain n where n: "createHttpRequestNode b1 = (n, b')" "ns = [n]"
      using assms f by (auto simp: createIntegrationNodes_def Let_def split: prod.splits)
    from n(1) have "idsFrom (nodeIdCounter b1) [n] (nodeIdCounter b')" "n_name n \<in> mainNodeNames"
      by (auto simp: createHttpRequestNode_def mainNodeNames_def dest: mkNode_ids)
    with i1 True n(2) show ?thesis
      using idsFrom_append [of "nodeIdCounter b" "[]" "nodeIdCounter b1" "[n]" "nodeIdCounter b'"]
      by simp
  qed
  then show "idsFrom (nodeIdCounter b) ns (nodeIdCounter b')"
    and "n_name ` set ns \<subseteq> mainNodeNames" and "ns \<noteq> []"
    by simp_all
qed

subsection \<open>Connections\<close>

lemma connectNodes_sources [simp]:
  "connectionSources (connectNodes cs f t) = insert f (connectionSources cs)"
  by (induction cs f t rule: connectNodes.induct) (auto simp: connectionSources_def)

lemma connectNodes_targets [simp]:
  "connectionTargets (connectNodes cs f t) = insert t (connectionTargets cs)"
  by (induction cs f t rule: connectNodes.induct)
     (auto simp: connectionTargets_def mainConnection_def)

lemma connectNodes_new_source:
  "f \<notin> connectionSources cs \<Longrightarrow> connectNodes cs f t = cs @ [(f, [[mainConnection t]])]"
  by (induction cs f t rule: connectNodes.induct) (auto simp: connectionSources_def)

lemma edge_iff:
  "edge conns a b \<Longrightarrow> a \<in> connectionSources conns \<and> b \<in> connectionTargets conns"
  unfolding edge_def connectionSources_def connectionTargets_def by force

lemma edge_append_new:
  assumes "edge (cs @ [(f, [[mainConnection t]])]) a b"
  shows "edge cs a b \<or> (a = f \<and> b = t)"
  using assms unfolding edge_def by (auto simp: mainConnection_def)

subsection \<open>The steps of the main chain\<close>

lemma error_names_not_main: "errorNodeNames \<inter> mainNodeNames = {}"
  by (simp add: errorNodeNames_def mainNodeNames_def)

lemma advancePosition_counter [simp]:
  "nodeIdCounter (advancePosition b) = nodeIdCounter b"
  by (simp add: advancePosition_def)

lemma addTriggerNode_inv:
  assumes "addTriggerNode reqs (resetCounters b) = Inr st"
  shows "chainInv st"
proof -
  from assms obtain n b1 where c: "createTriggerNode reqs (resetCounters b) = Inr (n, b1)"
    and st: "st = \<lparr> bs_nodes = [n], bs_connections = [], previousNodeName = n_name n,
                    bs_builder = advancePosition b1 \<rparr>"
    unfolding addTriggerNode_def mapE_Inr_iff by auto
  from createTriggerNode_ids [OF c]
  have "idsFrom 1 [n] (nodeIdCounter b1)" "n_name n \<in> mainNodeNames" "n_id n = nodeIdOf 1"
    by (simp_all add: resetCounters_def)
  then show ?thesis
    by (simp add: chainInv_def namesInv_def st connectionSources_def connectionTargets_def)
qed

lemma addValidationNode_inv:
  assumes "chainInv st"
  shows "chainInv (addValidationNode options st)"
proof (cases "securityLevel options \<noteq> BasicSecurity")
  case False
  with assms show ?thesis by (simp add: addValidationNode_def)
next
  case True
  obtain n b1 where c: "createValidationNode (bs_builder st) = (n, b1)"
    by (cases "createValidationNode (bs_builder st)")
  then have "idsFrom (nodeIdCounter (bs_builder st)) [n] (nodeIdCounter b1)"
    and "n_name n \<in> mainNodeNames"
    by (auto simp: createValidationNode_def mainNodeNames_def dest: mkNode_ids)
  with assms True c show ?thesis
    by (auto simp: chainInv_def namesInv_def addValidationNode_def intro: idsFrom_append)
qed

lemma processingLoop_step:
  "bs_nodes (processingLoop st n) = bs_nodes st @ [n]"
  "nodeIdCounter (bs_builder (processingLoop st n)) = nodeIdCounter (bs_builder st)"
  "n_name n \<in> mainNodeNames \<Longrightarrow> namesInv st \<Longrightarrow> namesInv (processingLoop st n)"
  by (auto simp: namesInv_def processingLoop_def)

lemma integrationLoop_step:
  "bs_nodes (integrationLoop st n) = bs_nodes st @ [n]"
  "nodeIdCounter (bs_builder (integrationLoop st n)) = nodeIdCounter (bs_builder st)"
  "previousNodeName (integrationLoop st n) = previousNodeName st"
  "n_name n \<in> mainNodeNames \<Longrightarrow> namesInv st \<Longrightarrow> namesInv (integrationLoop st n)"
  by (auto simp: namesInv_def integrationLoop_def)

lemma foldl_processingLoop:
  assumes "n_name ` set ns \<subseteq> mainNodeNames" and "namesInv st"
  shows "bs_nodes (foldl processingLoop st ns) = bs_nodes st @ ns
         \<and> nodeIdCounter (bs_builder (foldl processingLoop st ns)) = nodeIdCounter (bs_builder st)
         \<and> namesInv (foldl processingLoop st ns)"
  using assms
proof (induction ns arbitrary: st)
  case Nil
  then show ?case by simp
next
  case (Cons n ns)
  from Cons.prems have "namesInv (processingLoop st n)" "n_name ` set ns \<subseteq> mainNodeNames"
    by (simp_all add: processingLoop_step)
  from Cons.IH [OF this(2,1)] show ?case
    by (simp add: processingLoop_step)
qed

lemma foldl_integrationLoop:
  assumes "n_name ` set ns \<subseteq> mainNodeNames" and "namesInv st"
  shows "bs_nodes (foldl integrationLoop st ns) = bs_nodes st @ ns
         \<and> nodeIdCounter (bs_builder (foldl integrationLoop st ns)) = nodeIdCounter (bs_builder st)
         \<and> namesInv (foldl integrationLoop st ns)
         \<and> previousNodeName (foldl integrationLoop st ns) = previousNodeName st"
  using assms
proof (induction ns arbitrary: st)
  case Nil
  then show ?case by simp
next
  case (Cons n ns)
  from Cons.prems have "namesInv (integrationLoop st n)" "n_name ` set ns \<subseteq> mainNodeNames"
    by (simp_all add: integrationLoop_step)
  from Cons.IH [OF this(2,1)] show ?case
    by (simp add: integrationLoop_step)
qed

lemma namesInv_builder [simp]: "namesInv (st\<lparr> bs_builder := b \<rparr>) = namesInv st"
  by (simp add: namesInv_def)

lemma addProcessingNodes_inv:
  assumes "chainInv st" and "addProcessingNodes bp reqs st = Inr st'"
  shows "chainInv st'"
proof -
  from assms(2) obtain ns b1 where c: "createProcessingNodes bp reqs (bs_builder st) = Inr (ns, b1)"
    and st': "st' = foldl processingLoop (st\<lparr> bs_builder := b1 \<rparr>) ns"
    unfolding addProcessingNodes_def mapE_Inr_iff by auto
  note ids = createProcessingNodes_ids [OF c]
  let ?st = "st\<lparr> bs_builder := b1 \<rparr>"
  from assms(1) have "namesInv ?st"
    by (simp add: chainInv_def)
  note loop = foldl_processingLoop [OF ids(2) this]
  have "idsFrom 1 (bs_nodes st @ ns) (nodeIdCounter b1)"
    using assms(1) ids(1) by (auto simp: chainInv_def intro: idsFrom_append)
  with loop assms(1) show ?thesis
    by (simp add: chainInv_def st')
qed

lemma addIntegrationNodes_inv:
  assumes "chainInv st"
  shows "chainInv (addIntegrationNodes bp st)"
proof -
  obtain ns b1 where c: "createIntegrationNodes bp (bs_builder st) = (ns, b1)"
    by (cases "createIntegrationNodes bp (bs_builder st)")
  note ids = createIntegrationNodes_ids [OF c]
  let ?st = "st\<lparr> bs_builder := b1 \<rparr>"
  from assms have "namesInv ?st"
    by (simp add: chainInv_def)
  note loop = foldl_integrationLoop [OF ids(2) this]
  have "idsFrom 1 (bs_nodes st @ ns) (nodeIdCounter b1)"
    using assms ids(1) by (auto simp: chainInv_def intro: idsFrom_append)
  with loop assms show ?thesis
    by (simp add: chainInv_def addIntegrationNodes_def c)
qed

lemma addOutputNode_inv:
  assumes "chainInv st"
  shows "chainInv (addOutputNode bp st)"
proof -
  obtain n b1 where c: "createOutputNode bp (bs_builder st) = (n, b1)"
    by (cases "createOutputNode bp (bs_builder st)")
  then have "idsFrom (nodeIdCounter (bs_builder st)) [n] (nodeIdCounter b1)"
    and "n_name n \<in> mainNodeNames"
    by (auto simp: createOutputNode_def mainNodeNames_def dest: mkNode_ids)
  with assms c show ?thesis
    by (auto simp: chainInv_def namesInv_def addOutputNode_def intro: idsFrom_append)
qed

lemma mainChain_inv:
  assumes "mainChain bp reqs options b = Inr st"
  shows "chainInv st"
proof -
  from assms obtain st1 st3 where
    t: "addTriggerNode reqs (resetCounters b) = Inr st1"
    and p: "addProcessingNodes bp reqs (addValidationNode options st1) = Inr st3"
    and st: "st = addOutputNode bp (addIntegrationNodes bp st3)"
    unfolding mainChain_def bindE_Inr_iff by auto
  from addTriggerNode_inv [OF t] have "chainInv (addValidationNode options st1)"
    by (rule addValidationNode_inv)
  from addProcessingNodes_inv [OF this p] show ?thesis
    unfolding st by (intro addOutputNode_inv addIntegrationNodes_inv)
qed

text \<open>Step 6, when error handling is on: two more nodes and one more entry.\<close>

lemma addErrorHandling_on:
  assumes inv: "chainInv st" and on: "includeErrorHandling options"
  shows "\<exists>h n. bs_nodes (addErrorHandling options st) = bs_nodes st @ [h, n]
            \<and> n_id h = nodeIdOf (nodeIdCounter (bs_builder st))
            \<and> n_id n = nodeIdOf (nodeIdCounter (bs_builder st) + 1)
            \<and> n_name h = ''Error Handler'' \<and> n_name n = ''Error Notification''"
    and "bs_connections (addErrorHandling options st)
           = bs_connections st @ [(''Error Handler'', [[mainConnection ''Error Notification'']])]"
proof -
  show "\<exists>h n. bs_nodes (addErrorHandling options st) = bs_nodes st @ [h, n]
            \<and> n_id h = nodeIdOf (nodeIdCounter (bs_builder st))
            \<and> n_id n = nodeIdOf (nodeIdCounter (bs_builder st) + 1)
            \<and> n_name h = ''Error Handler'' \<and> n_name n = ''Error Notification''"
    using on
    by (simp add: addErrorHandling_def createErrorHandlingNodes_def generateNodeId_def Let_def)
  have "''Error Handler'' \<notin> connectionSources (bs_connections st)"
    using inv error_names_not_main
    by (auto simp: chainInv_def namesInv_def errorNodeNames_def)
  then have "connectNodes (bs_connections st) ''Error Handler'' ''Error Notification''
               = bs_connections st @ [(''Error Handler'', [[mainConnection ''Error Notification'']])]"
    by (rule connectNodes_new_source)
  then show "bs_connections (addErrorHandling options st)
           = bs_connections st @ [(''Error Handler'', [[mainConnection ''Error Notification'']])]"
    using on
    by (simp add: addErrorHandling_def createErrorHandlingNodes_def generateNodeId_def Let_def
          addErrorHandlingConnections_def)
qed

lemma addErrorHandling_ids:
  assumes inv: "chainInv st"
  shows "\<exists>c. idsFrom 1 (bs_nodes (addErrorHandling options st)) c"
proof (cases "includeErrorHandling options")
  case False
  with inv show ?thesis
    by (auto simp: addErrorHandling_def chainInv_def)
next
  case True
  let ?c = "nodeIdCounter (bs_builder st)"
  from addErrorHandling_on(1) [OF inv True] obtain h n where
    hn: "bs_nodes (addErrorHandling options st) = bs_nodes st @ [h, n]"
        "n_id h = nodeIdOf ?c" "n_id n = nodeIdOf (?c + 1)"
    by blast
  have "idsFrom ?c [h] (?c + 1)" "idsFrom (?c + 1) [n] (?c + 2)"
    using hn(2,3) by (auto intro: idsFrom_single)
  then have "idsFrom ?c ([h] @ [n]) (?c + 2)"
    by (rule idsFrom_append)
  with inv have "idsFrom 1 (bs_nodes st @ ([h] @ [n])) (?c + 2)"
    by (auto simp: chainInv_def intro: idsFrom_append)
  with hn(1) show ?thesis
    by auto
qed

subsection \<open>When the builder returns and when it raises\<close>

lemma createTriggerNode_total:
  assumes "contentOf reqs = Inr content"
  shows "\<exists>r. createTriggerNode reqs b = Inr r"
  by (simp add: createTriggerNode_def determineTriggerType_def mapE_total_iff assms)

lemma createAIProcessingNode_total:
  assumes "contentOf reqs = Inr content"
  shows "\<exists>r. createAIProcessingNode reqs b = Inr r"
  unfolding createAIProcessingNode_def bindE_total_iff
    requiresTextProcessing_def requiresClassification_def
  using readers_total(1) [OF assms] by blast

lemma processingNodeFor_total:
  assumes "contentOf reqs = Inr content" and "c_name c \<noteq> None"
  shows "\<exists>r. processingNodeFor reqs acc c = Inr r"
proof -
  obtain ns b where acc: "acc = (ns, b)"
    by (cases acc)
  from assms(2) obtain name where name: "c_name c = Some name"
    by auto
  from createAIProcessingNode_total [OF assms(1), of b]
  show ?thesis
    by (auto simp: processingNodeFor_def acc name mapE_total_iff)
qed

lemma createProcessingNodes_total:
  assumes "contentOf reqs = Inr content" and "namesPresent bp"
  shows "\<exists>r. createProcessingNodes bp reqs b = Inr r"
proof -
  have "\<exists>s'. foldE (processingNodeFor reqs) ([], b) (componentsOf bp) = Inr s'"
  proof (rule foldE_total)
    fix s x
    assume "x \<in> set (componentsOf bp)"
    with assms(2) have "c_name x \<noteq> None"
      by (auto simp: namesPresent_def list_all_iff)
    with assms(1) show "\<exists>s'. processingNodeFor reqs s x = Inr s'"
      by (rule processingNodeFor_total)
  qed
  then obtain s' where "foldE (processingNodeFor reqs) ([], b) (componentsOf bp) = Inr s'" ..
  then show ?thesis
    by (simp add: createProcessingNodes_def)
qed

lemma mainChain_total:
  assumes "contentOf reqs = Inr content" and "namesPresent bp"
  shows "\<exists>st. mainChain bp reqs options b = Inr st"
proof -
  from createTriggerNode_total [OF assms(1)]
  obtain r where "createTriggerNode reqs (resetCounters b) = Inr r" ..
  then obtain st1 where t: "addTriggerNode reqs (resetCounters b) = Inr st1"
    by (simp add: addTriggerNode_def)
  from createProcessingNodes_total [OF assms]
  obtain r' where "createProcessingNodes bp reqs (bs_builder (addValidationNode options st1))
                     = Inr r'" ..
  then obtain st3 where "addProcessingNodes bp reqs (addValidationNode options st1) = Inr st3"
    by (simp add: addProcessingNodes_def)
  with t show ?thesis
    by (simp add: mainChain_def)
qed

lemma generateWorkflowTags_total:
  "title bp \<noteq> None \<Longrightarrow> \<exists>tags. generateWorkflowTags bp = Inr tags"
  by (auto simp: generateWorkflowTags_def)

lemma buildMainWorkflow_total:
  assumes "answersPresent reqs" and "namesPresent bp" and "title bp \<noteq> None"
  shows "\<exists>w b'. buildMainWorkflow bp reqs options newId b = Inr (w, b')"
proof -
  from contentOf_present [OF assms(1)] obtain content where "contentOf reqs = Inr content" ..
  from mainChain_total [OF this assms(2)] obtain st
    where st: "mainChain bp reqs options b = Inr st" ..
  from generateWorkflowTags_total [OF assms(3)] obtain tags
    where tags: "generateWorkflowTags bp = Inr tags" ..
  show ?thesis
    by (simp add: buildMainWorkflow_def st tags Let_def)
qed

lemma someStorageOrData_total:
  "list_all (\<lambda>c. c_name c \<noteq> None) cs \<Longrightarrow> \<exists>r. someStorageOrData cs = Inr r"
  by (induction cs) auto

lemma requiresDataProcessingWorkflow_total:
  "namesPresent bp \<Longrightarrow> \<exists>r. requiresDataProcessingWorkflow bp = Inr r"
  using someStorageOrData_total
  by (auto simp: requiresDataProcessingWorkflow_def namesPresent_def componentsOf_def
           split: option.splits)

lemma supporting_workflows_total:
  assumes "generateWorkflowTags bp = Inr tags"
  shows "\<exists>w b'. buildDataProcessingWorkflow bp reqs options newId b = Inr (w, b')"
    and "\<exists>w b'. buildMonitoringWorkflow bp options newId b = Inr (w, b')"
  by (simp_all add: buildDataProcessingWorkflow_def buildMonitoringWorkflow_def assms
        Let_def split_beta)

lemma generateWorkflowFromBlueprint_total:
  assumes "answersPresent reqs" and "namesPresent bp" and "title bp \<noteq> None"
  shows "\<exists>main rest b'. generateWorkflowFromBlueprint bp reqs options newIds b = Inr (main # rest, b')
           \<and> (\<exists>b1. buildMainWorkflow bp reqs options (fst newIds) b = Inr (main, b1))"
proof -
  obtain i1 i2 i3 where ids: "newIds = (i1, i2, i3)"
    by (cases newIds) auto
  from buildMainWorkflow_total [OF assms] obtain main b1
    where m: "buildMainWorkflow bp reqs options i1 b = Inr (main, b1)"
    by blast
  from requiresDataProcessingWorkflow_total [OF assms(2)] obtain needsData
    where d: "requiresDataProcessingWorkflow bp = Inr needsData" ..
  from generateWorkflowTags_total [OF assms(3)] obtain tags
    where tags: "generateWorkflowTags bp = Inr tags" ..
  obtain dw b2 where dw: "buildDataProcessingWorkflow bp reqs options i2 b1 = Inr (dw, b2)"
    using supporting_workflows_total(1) [OF tags] by blast
  obtain mw3 b3 where mw3: "buildMonitoringWorkflow bp options i3 b1 = Inr (mw3, b3)"
    using supporting_workflows_total(2) [OF tags] by blast
  obtain mw4 b4 where mw4: "buildMonitoringWorkflow bp options i3 b2 = Inr (mw4, b4)"
    using supporting_workflows_total(2) [OF tags] by blast
  show ?thesis
    by (simp add: generateWorkflowFromBlueprint_def ids m d dw mw3 mw4)
qed


subsection \<open>The claims about the main workflow\<close>

lemma buildMainWorkflow_fields:
  assumes "buildMainWorkflow bp reqs options newId b = Inr (w, b')"
  shows "\<exists>st. mainChain bp reqs options b = Inr st
           \<and> nodes w = bs_nodes (addErrorHandling options st)
           \<and> connections w = bs_connections (addErrorHandling options st)"
  using assms
  by (auto simp: buildMainWorkflow_def bindE_Inr_iff Let_def)

lemma from_main_never_error:
  "reachable conns a x \<Longrightarrow> a \<notin> errorNodeNames
     \<Longrightarrow> (\<forall>u v. edge conns u v \<and> u \<notin> errorNodeNames \<longrightarrow> v \<notin> errorNodeNames)
     \<Longrightarrow> x \<notin> errorNodeNames"
  by (induction rule: reachable.induct) auto

lemmas main_workflow_steps =
  buildMainWorkflow_def mainChain_def addErrorHandling_def addOutputNode_def
  addIntegrationNodes_def addProcessingNodes_def addValidationNode_def addTriggerNode_def
  createOutputNode_def createIntegrationNodes_def createProcessingNodes_def
  createTriggerNode_def determineTriggerType_def includesAny_def
  createIntegrationNodeForService_def integrationNodeFor_def createGenericProcessingNode_def
  createHttpRequestNode_def createValidationNode_def createErrorHandlingNodes_def
  processingNodeFor_def generateWorkflowTags_def titleText_def
  integrationLoop_def processingLoop_def mkNode_def generateNodeId_def
  componentsOf_def integrationsOf_def resetCounters_def advancePosition_def Let_def

text \<open>
  C1, the failing run. The blueprint has no processor component and two integrations,
  HubSpot and Stripe; there are no requirements; validation and error handling are off.
  The default processing node \<open>Process Data\<close> gets three outgoing lists, to each
  integration node and to the output node; the integration nodes have no outgoing
  connection; the Stripe node is not wired from the HubSpot node before it, nor the
  output node from the Stripe node.
\<close>

theorem integration_nodes_fan_out:
  "mapE (\<lambda>(w, b). (map n_name (nodes w), connections w))
     (buildMainWorkflow
        (blueprintOf [] [\<lparr> i_service = Some ''HubSpot CRM'' \<rparr>, \<lparr> i_service = Some ''Stripe Payments'' \<rparr>])
        [] basicOptions ''w'' newBuilder)
   = Inr ([''Manual Trigger'', ''Process Data'', ''HubSpot Integration'', ''Stripe Integration'',
           ''Send Notification''],
          [(''Manual Trigger'', [[mainConnection ''Process Data'']]),
           (''Process Data'', [[mainConnection ''HubSpot Integration''],
                               [mainConnection ''Stripe Integration''],
                               [mainConnection ''Send Notification'']])])"
  by (simp add: main_workflow_steps blueprintOf_def basicOptions_def newBuilder_def
        toLowerCase_def toLowerChar_def)

text \<open>
  C8. The main chain does not depend on \<^verbatim>\<open>includeErrorHandling\<close>. Whenever
  \<^verbatim>\<open>buildMainWorkflow\<close> returns a workflow: with the option on, the workflow is the
  main chain followed by the nodes \<open>Error Handler\<close> and \<open>Error Notification\<close>, and its
  connections are those of the main chain followed by the one entry from the former to
  the latter; with the option off, it is the main chain. No node of the main chain has
  one of the two names, and no connection of the main chain starts or ends at one of
  them; so from a node that is not an error node no error node can be reached. The
  method returns a workflow whenever the requirements carry their answers, the
  components their names and the blueprint its title.
\<close>

theorem error_handling_side_path:
  "mainChain bp reqs (options\<lparr> includeErrorHandling := v \<rparr>) b = mainChain bp reqs options b
   \<and> (buildMainWorkflow bp reqs options newId b = Inr (w, b') \<longrightarrow>
        (\<exists>st. mainChain bp reqs options b = Inr st
           \<and> (includeErrorHandling options \<longrightarrow>
                (\<exists>h n. nodes w = bs_nodes st @ [h, n]
                       \<and> n_name h = ''Error Handler'' \<and> n_name n = ''Error Notification'')
                \<and> connections w
                    = bs_connections st
                      @ [(''Error Handler'', [[mainConnection ''Error Notification'']])])
           \<and> (\<not> includeErrorHandling options \<longrightarrow>
                nodes w = bs_nodes st \<and> connections w = bs_connections st)
           \<and> n_name ` set (bs_nodes st) \<inter> errorNodeNames = {}
           \<and> connectionSources (bs_connections st) \<inter> errorNodeNames = {}
           \<and> connectionTargets (bs_connections st) \<inter> errorNodeNames = {}
           \<and> (\<forall>a x. a \<notin> errorNodeNames \<and> reachable (connections w) a x
                  \<longrightarrow> x \<notin> errorNodeNames)))
   \<and> (answersPresent reqs \<and> namesPresent bp \<and> title bp \<noteq> None \<longrightarrow>
        (\<exists>w1 b1. buildMainWorkflow bp reqs options newId b = Inr (w1, b1)))"
proof -
  have indep: "mainChain bp reqs (options\<lparr> includeErrorHandling := v \<rparr>) b
                 = mainChain bp reqs options b"
    by (simp add: mainChain_def addValidationNode_def)
  have built: "\<exists>st. mainChain bp reqs options b = Inr st
           \<and> (includeErrorHandling options \<longrightarrow>
                (\<exists>h n. nodes w = bs_nodes st @ [h, n]
                       \<and> n_name h = ''Error Handler'' \<and> n_name n = ''Error Notification'')
                \<and> connections w
                    = bs_connections st
                      @ [(''Error Handler'', [[mainConnection ''Error Notification'']])])
           \<and> (\<not> includeErrorHandling options \<longrightarrow>
                nodes w = bs_nodes st \<and> connections w = bs_connections st)
           \<and> n_name ` set (bs_nodes st) \<inter> errorNodeNames = {}
           \<and> connectionSources (bs_connections st) \<inter> errorNodeNames = {}
           \<and> connectionTargets (bs_connections st) \<inter> errorNodeNames = {}
           \<and> (\<forall>a x. a \<notin> errorNodeNames \<and> reachable (connections w) a x
                  \<longrightarrow> x \<notin> errorNodeNames)"
    if ret: "buildMainWorkflow bp reqs options newId b = Inr (w, b')"
  proof -
    from buildMainWorkflow_fields [OF ret] obtain st where
      st: "mainChain bp reqs options b = Inr st"
      and wn: "nodes w = bs_nodes (addErrorHandling options st)"
      and wc: "connections w = bs_connections (addErrorHandling options st)"
      by blast
    have inv: "chainInv st"
      using st by (rule mainChain_inv)
    have on: "(\<exists>h n. nodes w = bs_nodes st @ [h, n]
                   \<and> n_name h = ''Error Handler'' \<and> n_name n = ''Error Notification'')
            \<and> connections w
                = bs_connections st @ [(''Error Handler'', [[mainConnection ''Error Notification'']])]"
      if "includeErrorHandling options"
      using addErrorHandling_on [OF inv that] wn wc by auto
    have off: "nodes w = bs_nodes st \<and> connections w = bs_connections st"
      if "\<not> includeErrorHandling options"
      using that wn wc by (simp add: addErrorHandling_def)
    have names: "n_name ` set (bs_nodes st) \<inter> errorNodeNames = {}"
      and srcs: "connectionSources (bs_connections st) \<inter> errorNodeNames = {}"
      and tgts: "connectionTargets (bs_connections st) \<inter> errorNodeNames = {}"
      using inv error_names_not_main by (auto simp: chainInv_def namesInv_def)
    have closed: "v' \<notin> errorNodeNames" if "edge (connections w) u v'" "u \<notin> errorNodeNames" for u v'
    proof (cases "includeErrorHandling options")
      case False
      with off that(1) have "edge (bs_connections st) u v'" by simp
      with tgts show ?thesis by (auto dest: edge_iff)
    next
      case True
      with on that(1) have "edge (bs_connections st) u v' \<or> u = ''Error Handler''"
        by (auto dest: edge_append_new)
      with that(2) have "edge (bs_connections st) u v'"
        by (auto simp: errorNodeNames_def)
      with tgts show ?thesis by (auto dest: edge_iff)
    qed
    have reach: "\<forall>a x. a \<notin> errorNodeNames \<and> reachable (connections w) a x \<longrightarrow> x \<notin> errorNodeNames"
    proof (intro allI impI)
      fix a x
      assume ax: "a \<notin> errorNodeNames \<and> reachable (connections w) a x"
      have "\<forall>u v. edge (connections w) u v \<and> u \<notin> errorNodeNames \<longrightarrow> v \<notin> errorNodeNames"
        using closed by blast
      with ax show "x \<notin> errorNodeNames"
        using from_main_never_error [of "connections w" a x] by blast
    qed
    from st on off names srcs tgts reach show ?thesis
      by blast
  qed
  from indep built buildMainWorkflow_total [of reqs bp options newId b] show ?thesis
    by blast
qed

text \<open>
  An instance: the agent's blueprint, no requirements, the default options. The entry of
  \<open>Error Handler\<close> is the last one, and \<open>Error Handler\<close> cannot be reached from the
  trigger.
\<close>

theorem error_handling_side_path_witness:
  "includeErrorHandling getDefaultOptions
   \<and> answersPresent [] \<and> namesPresent (createProjectBlueprint ''b'')
   \<and> title (createProjectBlueprint ''b'') \<noteq> None
   \<and> ''Manual Trigger'' \<notin> errorNodeNames
   \<and> mapE (\<lambda>(w, b). connections w)
        (buildMainWorkflow (createProjectBlueprint ''b'') [] getDefaultOptions ''w'' newBuilder)
       = mapE (\<lambda>st. bs_connections st
                      @ [(''Error Handler'', [[mainConnection ''Error Notification'']])])
           (mainChain (createProjectBlueprint ''b'') [] getDefaultOptions newBuilder)
   \<and> mapE (\<lambda>(w, b). reachable (connections w) ''Manual Trigger'' ''Error Handler'')
        (buildMainWorkflow (createProjectBlueprint ''b'') [] getDefaultOptions ''w'' newBuilder)
       = Inr False"
proof -
  let ?bp = "createProjectBlueprint ''b''"
  have on: "includeErrorHandling getDefaultOptions"
    by (simp add: getDefaultOptions_def)
  have wf: "answersPresent []" "namesPresent ?bp" "title ?bp \<noteq> None"
    by (simp_all add: answersPresent_def namesPresent_def componentsOf_def
          createProjectBlueprint_def)
  have mt: "''Manual Trigger'' \<notin> errorNodeNames"
    by (simp add: errorNodeNames_def)
  have eh: "''Error Handler'' \<in> errorNodeNames"
    by (simp add: errorNodeNames_def)
  from error_handling_side_path
         [where bp = ?bp and reqs = "[]" and options = getDefaultOptions
            and v = True and b = newBuilder and newId = "''w''"]
       wf
  obtain w b' where ret: "buildMainWorkflow ?bp [] getDefaultOptions ''w'' newBuilder = Inr (w, b')"
    by blast
  from error_handling_side_path
         [where bp = ?bp and reqs = "[]" and options = getDefaultOptions
            and v = True and b = newBuilder and newId = "''w''" and w = w and b' = b']
       ret on
  obtain st where st: "mainChain ?bp [] getDefaultOptions newBuilder = Inr st"
    and conns: "connections w
                  = bs_connections st @ [(''Error Handler'', [[mainConnection ''Error Notification'']])]"
    and reach: "\<forall>a x. a \<notin> errorNodeNames \<and> reachable (connections w) a x \<longrightarrow> x \<notin> errorNodeNames"
    by blast
  from reach mt eh have "\<not> reachable (connections w) ''Manual Trigger'' ''Error Handler''"
    by blast
  with on wf mt ret st conns show ?thesis
    by simp
qed

subsection \<open>Distinct node ids\<close>

lemma main_workflow_ids:
  assumes "buildMainWorkflow bp reqs options newId b = Inr (w, b')"
  shows "distinct (map n_id (nodes w)) \<and> n_id (hd (nodes w)) = nodeIdOf 1"
proof -
  from buildMainWorkflow_fields [OF assms] obtain st where
    st: "mainChain bp reqs options b = Inr st"
    and wn: "nodes w = bs_nodes (addErrorHandling options st)"
    by blast
  have inv: "chainInv st"
    using st by (rule mainChain_inv)
  from addErrorHandling_ids [OF inv, of options] obtain c
    where "idsFrom 1 (bs_nodes (addErrorHandling options st)) c" ..
  then have d: "distinct (map n_id (bs_nodes (addErrorHandling options st)))"
    by (rule idsFrom_distinct)
  have "hd (bs_nodes (addErrorHandling options st)) = hd (bs_nodes st)"
  proof (cases "includeErrorHandling options")
    case True
    from addErrorHandling_on(1) [OF inv True] inv show ?thesis
      by (auto simp: chainInv_def)
  next
    case False
    then show ?thesis by (simp add: addErrorHandling_def)
  qed
  with inv d show ?thesis
    by (simp add: wn chainInv_def)
qed

lemma decimal_digit: "n < 10 \<Longrightarrow> decimal n = [digitChar n]"
  by (subst decimal.simps) simp

lemma nodeIdOf_eq [simp]: "nodeIdOf j = nodeIdOf k \<longleftrightarrow> j = k"
  using nodeIdOf_inj by (auto dest: injD)

lemma data_workflow_ids:
  assumes "buildDataProcessingWorkflow bp reqs options newId b = Inr (w, b')"
  shows "map n_id (nodes w) = [nodeIdOf 1, nodeIdOf 2, nodeIdOf 3, nodeIdOf 4]"
  using assms
  by (auto simp: buildDataProcessingWorkflow_def bindE_Inr_iff mkNode_def generateNodeId_def
        Let_def resetCounters_def advancePosition_def)

lemma monitoring_workflow_ids:
  assumes "buildMonitoringWorkflow bp options newId b = Inr (w, b')"
  shows "map n_id (nodes w) = [nodeIdOf 1, nodeIdOf 2]"
  using assms
  by (auto simp: buildMonitoringWorkflow_def bindE_Inr_iff mkNode_def generateNodeId_def
        Let_def resetCounters_def advancePosition_def)

lemma generated_workflows:
  assumes "generateWorkflowFromBlueprint bp reqs options (i1, i2, i3) b = Inr (ws, bl)"
  shows "\<forall>w \<in> set ws.
           (\<exists>b'. buildMainWorkflow bp reqs options i1 b = Inr (w, b'))
           \<or> (\<exists>b0 b'. buildDataProcessingWorkflow bp reqs options i2 b0 = Inr (w, b'))
           \<or> (\<exists>b0 b'. buildMonitoringWorkflow bp options i3 b0 = Inr (w, b'))"
proof -
  let ?data = "\<lambda>main b1 needsData.
                 if needsData then
                   mapE (\<lambda>(dataWorkflow, b'). ([main] @ [dataWorkflow], b'))
                     (buildDataProcessingWorkflow bp reqs options i2 b1)
                 else Inr ([main], b1)"
  let ?mon = "\<lambda>ws2 b2.
                if requiresMonitoringWorkflow bp options then
                  mapE (\<lambda>(monitoringWorkflow, b'). (ws2 @ [monitoringWorkflow], b'))
                    (buildMonitoringWorkflow bp options i3 b2)
                else Inr (ws2, b2)"
  have gen: "generateWorkflowFromBlueprint bp reqs options (i1, i2, i3) b
          = bindE (buildMainWorkflow bp reqs options i1 b) (\<lambda>(main, b1).
            bindE (requiresDataProcessingWorkflow bp) (\<lambda>needsData.
            bindE (?data main b1 needsData) (\<lambda>(ws2, b2). ?mon ws2 b2)))"
    by (simp add: generateWorkflowFromBlueprint_def)
  from assms [unfolded gen] obtain mb where
    m0: "buildMainWorkflow bp reqs options i1 b = Inr mb"
    and r0: "(case mb of (main, b1) \<Rightarrow>
               bindE (requiresDataProcessingWorkflow bp) (\<lambda>needsData.
               bindE (?data main b1 needsData) (\<lambda>(ws2, b2). ?mon ws2 b2))) = Inr (ws, bl)"
    unfolding bindE_Inr_iff [of "buildMainWorkflow bp reqs options i1 b"] by blast
  obtain main b1 where mb: "mb = (main, b1)"
    by (cases mb)
  from r0 [unfolded mb prod.case] obtain needsData where
    r1: "bindE (?data main b1 needsData) (\<lambda>(ws2, b2). ?mon ws2 b2) = Inr (ws, bl)"
    unfolding bindE_Inr_iff [of "requiresDataProcessingWorkflow bp"] by blast
  from r1 obtain wb where d0: "?data main b1 needsData = Inr wb"
    and r2: "(case wb of (ws2, b2) \<Rightarrow> ?mon ws2 b2) = Inr (ws, bl)"
    unfolding bindE_Inr_iff [of "?data main b1 needsData"] by blast
  obtain ws2 b2 where wb: "wb = (ws2, b2)"
    by (cases wb)
  note m = m0 [unfolded mb] and d = d0 [unfolded wb] and r = r2 [unfolded wb prod.case]
  have two: "\<forall>w \<in> set ws2.
           (\<exists>b'. buildMainWorkflow bp reqs options i1 b = Inr (w, b'))
           \<or> (\<exists>b0 b'. buildDataProcessingWorkflow bp reqs options i2 b0 = Inr (w, b'))"
  proof (cases needsData)
    case False
    with d m show ?thesis by auto
  next
    case True
    with d obtain dw where "buildDataProcessingWorkflow bp reqs options i2 b1 = Inr (dw, b2)"
      "ws2 = [main, dw]"
      by (auto simp: mapE_Inr_iff)
    with m show ?thesis by auto
  qed
  show ?thesis
  proof (cases "requiresMonitoringWorkflow bp options")
    case False
    with r two show ?thesis by auto
  next
    case True
    with r obtain mw where "buildMonitoringWorkflow bp options i3 b2 = Inr (mw, bl)"
      "ws = ws2 @ [mw]"
      by (auto simp: mapE_Inr_iff)
    with two show ?thesis by auto
  qed
qed

text \<open>
  C10. In every workflow that \<^verbatim>\<open>generateWorkflowFromBlueprint\<close> returns, the ids of
  the nodes are pairwise distinct and the first node has the id \<open>node_1\<close>, the counter
  having been reset; the method returns its workflows whenever the requirements carry
  their answers, the components their names and the blueprint its title. Every call of
  \<^verbatim>\<open>generateNodeId\<close> returns the id of the current counter and leaves the counter one
  higher; different counters give different ids.
\<close>

theorem node_ids_distinct:
  "(generateWorkflowFromBlueprint bp reqs options newIds b = Inr (ws, bl) \<longrightarrow>
      (\<forall>w \<in> set ws. distinct (map n_id (nodes w)) \<and> n_id (hd (nodes w)) = ''node_1''))
   \<and> (answersPresent reqs \<and> namesPresent bp \<and> title bp \<noteq> None \<longrightarrow>
        (\<exists>ws1 b1. generateWorkflowFromBlueprint bp reqs options newIds b = Inr (ws1, b1)))
   \<and> nodeIdCounter (resetCounters b) = 1
   \<and> fst (generateNodeId b') = nodeIdOf (nodeIdCounter b')
   \<and> nodeIdCounter (snd (generateNodeId b')) = nodeIdCounter b' + 1
   \<and> (nodeIdOf j = nodeIdOf k \<longrightarrow> j = k)"
proof -
  obtain i1 i2 i3 where ids: "newIds = (i1, i2, i3)"
    by (cases newIds) auto
  have one: "nodeIdOf 1 = ''node_1''"
    by (simp add: nodeIdOf_def decimal_digit digitChar_def)
  have "distinct (map n_id (nodes w)) \<and> n_id (hd (nodes w)) = ''node_1''"
    if ret: "generateWorkflowFromBlueprint bp reqs options newIds b = Inr (ws, bl)"
      and w: "w \<in> set ws" for w
  proof -
    from generated_workflows [OF ret [unfolded ids]] w
    consider b0 where "buildMainWorkflow bp reqs options i1 b = Inr (w, b0)"
      | b0 b1 where "buildDataProcessingWorkflow bp reqs options i2 b0 = Inr (w, b1)"
      | b0 b1 where "buildMonitoringWorkflow bp options i3 b0 = Inr (w, b1)"
      by blast
    then show ?thesis
    proof cases
      case 1
      from main_workflow_ids [OF this] show ?thesis
        using one by simp
    next
      case 2
      note m = data_workflow_ids [OF this]
      from m have "distinct (map n_id (nodes w))"
        by simp
      moreover from m have "nodes w \<noteq> []"
        by auto
      then have "n_id (hd (nodes w)) = hd (map n_id (nodes w))"
        by (simp add: hd_map)
      with m have "n_id (hd (nodes w)) = nodeIdOf 1"
        by simp
      ultimately show ?thesis
        unfolding one by simp
    next
      case 3
      note m = monitoring_workflow_ids [OF this]
      from m have "distinct (map n_id (nodes w))"
        by simp
      moreover from m have "nodes w \<noteq> []"
        by auto
      then have "n_id (hd (nodes w)) = hd (map n_id (nodes w))"
        by (simp add: hd_map)
      with m have "n_id (hd (nodes w)) = nodeIdOf 1"
        by simp
      ultimately show ?thesis
        unfolding one by simp
    qed
  qed
  moreover have "\<exists>ws1 b1. generateWorkflowFromBlueprint bp reqs options newIds b = Inr (ws1, b1)"
    if "answersPresent reqs" "namesPresent bp" "title bp \<noteq> None"
    using generateWorkflowFromBlueprint_total [OF that, of options newIds b] by blast
  ultimately show ?thesis
    by (simp add: resetCounters_def generateNodeId_def)
qed

text \<open>
  An instance: the agent's blueprint with the default options; the main workflow has
  seven nodes, with the ids \<open>node_1\<close> to \<open>node_7\<close>.
\<close>

theorem node_ids_distinct_witness:
  "answersPresent [] \<and> namesPresent (createProjectBlueprint ''b'')
   \<and> title (createProjectBlueprint ''b'') \<noteq> None
   \<and> mapE (\<lambda>(ws, b). list_all (\<lambda>w. distinct (map n_id (nodes w))) ws)
        (generateWorkflowFromBlueprint (createProjectBlueprint ''b'') [] getDefaultOptions
           (''w1'', ''w2'', ''w3'') newBuilder)
       = Inr True
   \<and> mapE (\<lambda>(w, b). map n_id (nodes w))
        (buildMainWorkflow (createProjectBlueprint ''b'') [] getDefaultOptions ''w1'' newBuilder)
       = Inr [''node_1'', ''node_2'', ''node_3'', ''node_4'', ''node_5'', ''node_6'', ''node_7'']"
proof -
  let ?bp = "createProjectBlueprint ''b''"
  have wf: "answersPresent []" "namesPresent ?bp" "title ?bp \<noteq> None"
    by (simp_all add: answersPresent_def namesPresent_def componentsOf_def
          createProjectBlueprint_def)
  note t = node_ids_distinct [where bp = ?bp and reqs = "[]" and options = getDefaultOptions
                                and newIds = "(''w1'', ''w2'', ''w3'')" and b = newBuilder]
  from t wf obtain ws bl where
    ret: "generateWorkflowFromBlueprint ?bp [] getDefaultOptions (''w1'', ''w2'', ''w3'') newBuilder
            = Inr (ws, bl)"
    by blast
  from t [where ws = ws and bl = bl] ret
  have "\<forall>w \<in> set ws. distinct (map n_id (nodes w))"
    by blast
  then have all: "list_all (\<lambda>w. distinct (map n_id (nodes w))) ws"
    by (simp add: list_all_iff)
  have "mapE (\<lambda>(w, b). map n_id (nodes w))
          (buildMainWorkflow ?bp [] getDefaultOptions ''w1'' newBuilder)
          = Inr [''node_1'', ''node_2'', ''node_3'', ''node_4'', ''node_5'', ''node_6'', ''node_7'']"
    by (simp add: main_workflow_steps nodeIdOf_def decimal_digit digitChar_def
          createProjectBlueprint_def getDefaultOptions_def newBuilder_def)
  with wf ret all show ?thesis
    by simp
qed

subsection \<open>Fallbacks\<close>














end
